theory Spec2Isabelle
  imports Complex_Main "HOL-Library.Sublist"
begin

section \<open>The air-quality collector of \<^verbatim>\<open>data_collector.py\<close>\<close>

text \<open>
  The class \<^verbatim>\<open>AirQualityCollector\<close> polls two HTTP endpoints per monitoring point,
  flattens the two JSON answers into the keyword arguments of
  \<^verbatim>\<open>insert_air_quality_data\<close> and counts successes and failures. The embedding
  below keeps the control flow of the four methods. What lies outside the file (the
  \<^verbatim>\<open>requests\<close> library, the clock, \<^verbatim>\<open>time.sleep\<close> and the storage function imported
  from \<^verbatim>\<open>database_setup\<close>) is a parameter: a record of functions over an arbitrary world
  state. Every call of such a function is written to a trace, so that theorems can speak
  about which external calls a method makes. The \<^verbatim>\<open>print\<close> diagnostics are not modelled.
\<close>

subsection \<open>Python exceptions\<close>

text \<open>
  An exception is a class and a message. Only the distinctions the handlers of the file
  draw are kept: \<open>Timeout\<close> is \<^verbatim>\<open>requests.exceptions.Timeout\<close> and its subclasses,
  \<open>RequestException\<close> any other subclass of \<^verbatim>\<open>requests.exceptions.RequestException\<close>,
  \<open>KeyError\<close>, \<open>IndexError\<close>, \<open>TypeError\<close> and \<open>AttributeError\<close> the built-in errors
  of subscripting and attribute access, \<open>Exception\<close> any other subclass of
  \<^verbatim>\<open>Exception\<close>, and \<open>BaseException\<close> what is raised outside \<^verbatim>\<open>Exception\<close>
  (\<^verbatim>\<open>KeyboardInterrupt\<close>, \<^verbatim>\<open>SystemExit\<close>).
\<close>

datatype exn_class =
    Timeout | RequestException
  | KeyError | IndexError | TypeError | AttributeError
  | Exception | BaseException

datatype exn = Exn exn_class string

fun exn_str :: "exn \<Rightarrow> string" where
  "exn_str (Exn c msg) = msg"

fun is_Timeout :: "exn \<Rightarrow> bool" where
  "is_Timeout (Exn c msg) = (c = Timeout)"

fun is_RequestException :: "exn \<Rightarrow> bool" where
  "is_RequestException (Exn c msg) = (c = Timeout \<or> c = RequestException)"

fun is_Exception :: "exn \<Rightarrow> bool" where
  "is_Exception (Exn c msg) = (c \<noteq> BaseException)"

definition bind_exn :: "exn + 'a \<Rightarrow> ('a \<Rightarrow> exn + 'b) \<Rightarrow> exn + 'b" where
  "bind_exn m f = (case m of Inl e \<Rightarrow> Inl e | Inr x \<Rightarrow> f x)"

subsection \<open>Decoded JSON and the Python operations applied to it\<close>

text \<open>
  A decoded JSON value is \<^verbatim>\<open>None\<close>, a bool, a number, a string, a list or a dict with
  string keys. Numbers are only passed on, never computed with, so a rational stands for
  them. A dict is the list of its items; a key is looked up with \<open>map_of\<close>.
\<close>

datatype json =
    JNull | JBool bool | JNum rat | JStr string
  | JList "json list" | JObj "(string \<times> json) list"

text \<open>\<^verbatim>\<open>v[k]\<close> with a string key: only a dict accepts it.\<close>

fun getitem :: "json \<Rightarrow> string \<Rightarrow> exn + json" where
  "getitem (JObj kvs) k =
     (case map_of kvs k of None \<Rightarrow> Inl (Exn KeyError k) | Some v \<Rightarrow> Inr v)"
| "getitem (JList xs) k = Inl (Exn TypeError ''list indices must be integers or slices, not str'')"
| "getitem (JStr s) k = Inl (Exn TypeError ''string indices must be integers'')"
| "getitem v k = Inl (Exn TypeError ''object is not subscriptable'')"

text \<open>
  \<^verbatim>\<open>v[0]\<close>: the first element of a list or the first character of a string; a dict
  decoded from JSON has no key \<^verbatim>\<open>0\<close>.
\<close>

fun getitem0 :: "json \<Rightarrow> exn + json" where
  "getitem0 (JList []) = Inl (Exn IndexError ''list index out of range'')"
| "getitem0 (JList (x # xs)) = Inr x"
| "getitem0 (JStr []) = Inl (Exn IndexError ''string index out of range'')"
| "getitem0 (JStr (c # cs)) = Inr (JStr [c])"
| "getitem0 (JObj kvs) = Inl (Exn KeyError ''0'')"
| "getitem0 v = Inl (Exn TypeError ''object is not subscriptable'')"

text \<open>\<^verbatim>\<open>v.get(k, default)\<close>: only a dict has the method.\<close>

fun get_default :: "json \<Rightarrow> string \<Rightarrow> json \<Rightarrow> exn + json" where
  "get_default (JObj kvs) k d = (case map_of kvs k of None \<Rightarrow> Inr d | Some v \<Rightarrow> Inr v)"
| "get_default v k d = Inl (Exn AttributeError ''object has no attribute get'')"

subsection \<open>The data of the collector\<close>

text \<open>A monitoring point: the dicts of \<^verbatim>\<open>self.locations\<close>, keys \<^verbatim>\<open>id name lat lon\<close>.\<close>

record location =
  loc_id :: string
  loc_name :: string
  loc_lat :: rat
  loc_lon :: rat

record collector =
  api_key :: string
  base_url :: string
  locations :: "location list"

definition registry :: "location list" where
  "registry =
    [\<lparr>loc_id = ''aguachica_general'', loc_name = ''Aguachica - Vista General'',
      loc_lat = 8312 / 1000, loc_lon = - (73626 / 1000)\<rparr>,
     \<lparr>loc_id = ''parque_central'', loc_name = ''Parque Central'',
      loc_lat = 8310675833008426 / 10 ^ 15, loc_lon = - (7362363665855918 / 10 ^ 14)\<rparr>,
     \<lparr>loc_id = ''universidad'', loc_name = ''Universidad Popular del Cesar'',
      loc_lat = 8314789098234467 / 10 ^ 15, loc_lon = - (7359638568793966 / 10 ^ 14)\<rparr>,
     \<lparr>loc_id = ''parque_morrocoy'', loc_name = ''Parque Morrocoy'',
      loc_lat = 8310373774726447 / 10 ^ 15, loc_lon = - (7361670782048647 / 10 ^ 14)\<rparr>,
     \<lparr>loc_id = ''patinodromo'',
      loc_name = ''Patin'' @ [CHR 0xC3, CHR 0xB3] @ ''dromo'',
      loc_lat = 8297149888853758 / 10 ^ 15, loc_lon = - (7362335200184627 / 10 ^ 14)\<rparr>,
     \<lparr>loc_id = ''ciudadela_paz'', loc_name = ''Ciudadela de la Paz'',
      loc_lat = 8312099985681844 / 10 ^ 15, loc_lon = - (7363467832511535 / 10 ^ 14)\<rparr>,
     \<lparr>loc_id = ''bosque'', loc_name = ''Bosque'',
      loc_lat = 8312303609676293 / 10 ^ 15, loc_lon = - (7361448867800057 / 10 ^ 14)\<rparr>,
     \<lparr>loc_id = ''estadio'', loc_name = ''Estadio'',
      loc_lat = 830159931733102 / 10 ^ 14, loc_lon = - (73622763654179 / 10 ^ 12)\<rparr>]"

text \<open>\<^verbatim>\<open>__init__\<close>: the key is stored, the base URL and the eight points are fixed.\<close>

definition init :: "string \<Rightarrow> collector" where
  "init key =
    \<lparr>api_key = key, base_url = ''https://api.openweathermap.org/data/2.5'',
     locations = registry\<rparr>"

text \<open>An HTTP request as \<^verbatim>\<open>requests.get(url, params=..., timeout=...)\<close> receives it.\<close>

datatype param = PFloat rat | PStr string

record request =
  url :: string
  params :: "(string \<times> param) list"
  timeout :: nat

text \<open>
  A response: its status code and what \<^verbatim>\<open>.json()\<close> gives, the decoded body or the
  exception raised for a body that is not JSON.
\<close>

record response =
  status_code :: int
  json_result :: "exn + json"

text \<open>
  The dict returned by \<^verbatim>\<open>get_air_quality_data\<close>. A key the dict lacks is \<open>None\<close> here.
\<close>

record api_data =
  success :: bool
  air_quality :: "json option"
  weather :: "json option"
  error :: "string option"

text \<open>
  The keyword arguments of \<^verbatim>\<open>insert_air_quality_data\<close>. A measured value is the JSON
  value found in the payload, \<open>JNull\<close> being Python's \<^verbatim>\<open>None\<close>.
\<close>

record measurement =
  location_id :: string
  location_name :: string
  lat :: rat
  lon :: rat
  timestamp :: string
  pm2_5 :: json
  pm10 :: json
  o3 :: json
  no2 :: json
  aqi :: json
  temp :: json
  humidity :: json
  pressure :: json
  wind_speed :: json

subsection \<open>The outside world\<close>

text \<open>
  The four external functions, over a world state \<open>'w\<close> of any type. \<open>requests_get\<close>
  returns a response or raises; \<open>insert_air_quality_data\<close> returns the truth value of its
  result or raises; \<open>now\<close> is \<^verbatim>\<open>datetime.now(timezone.utc).isoformat()\<close>; \<open>sleep\<close> is
  \<^verbatim>\<open>time.sleep\<close>.
\<close>

record 'w env =
  requests_get :: "'w \<Rightarrow> request \<Rightarrow> (exn + response) \<times> 'w"
  insert_air_quality_data :: "'w \<Rightarrow> measurement \<Rightarrow> (exn + bool) \<times> 'w"
  now :: "'w \<Rightarrow> string \<times> 'w"
  sleep :: "'w \<Rightarrow> nat \<Rightarrow> 'w"

datatype event = HttpGet request | Insert measurement | Sleep nat

record 'w state =
  world :: 'w
  trace :: "event list"

definition do_get :: "'w env \<Rightarrow> request \<Rightarrow> 'w state \<Rightarrow> (exn + response) \<times> 'w state" where
  "do_get env req st =
     (case requests_get env (world st) req of
        (out, w) \<Rightarrow> (out, \<lparr>world = w, trace = trace st @ [HttpGet req]\<rparr>))"

definition do_insert :: "'w env \<Rightarrow> measurement \<Rightarrow> 'w state \<Rightarrow> (exn + bool) \<times> 'w state" where
  "do_insert env r st =
     (case insert_air_quality_data env (world st) r of
        (out, w) \<Rightarrow> (out, \<lparr>world = w, trace = trace st @ [Insert r]\<rparr>))"

definition do_now :: "'w env \<Rightarrow> 'w state \<Rightarrow> string \<times> 'w state" where
  "do_now env st =
     (case now env (world st) of (ts, w) \<Rightarrow> (ts, \<lparr>world = w, trace = trace st\<rparr>))"

definition do_sleep :: "'w env \<Rightarrow> nat \<Rightarrow> 'w state \<Rightarrow> 'w state" where
  "do_sleep env n st = \<lparr>world = sleep env (world st) n, trace = trace st @ [Sleep n]\<rparr>"

subsection \<open>\<^verbatim>\<open>get_air_quality_data\<close>\<close>

definition air_request :: "collector \<Rightarrow> rat \<Rightarrow> rat \<Rightarrow> request" where
  "air_request self lat' lon' =
     \<lparr>url = base_url self @ ''/air_pollution'',
      params = [(''lat'', PFloat lat'), (''lon'', PFloat lon'), (''appid'', PStr (api_key self))],
      timeout = 10\<rparr>"

definition weather_request :: "collector \<Rightarrow> rat \<Rightarrow> rat \<Rightarrow> request" where
  "weather_request self lat' lon' =
     \<lparr>url = base_url self @ ''/weather'',
      params = [(''lat'', PFloat lat'), (''lon'', PFloat lon'), (''appid'', PStr (api_key self)),
                (''units'', PStr ''metric'')],
      timeout = 10\<rparr>"

definition failed_fetch :: "string \<Rightarrow> api_data" where
  "failed_fetch msg = \<lparr>success = False, air_quality = None, weather = None, error = Some msg\<rparr>"

text \<open>
  The two \<^verbatim>\<open>except\<close> clauses of the method, in their order. An exception that is no
  \<^verbatim>\<open>RequestException\<close> leaves the method.
\<close>

definition except_request :: "exn \<Rightarrow> exn + api_data" where
  "except_request e =
     (if is_Timeout e then Inr (failed_fetch ''Timeout'')
      else if is_RequestException e then Inr (failed_fetch (exn_str e))
      else Inl e)"

definition get_air_quality_data ::
  "'w env \<Rightarrow> collector \<Rightarrow> rat \<Rightarrow> rat \<Rightarrow> 'w state \<Rightarrow> (exn + api_data) \<times> 'w state" where
  "get_air_quality_data env self lat' lon' st =
     (case do_get env (air_request self lat' lon') st of
        (Inl e, st1) \<Rightarrow> (except_request e, st1)
      | (Inr air_response, st1) \<Rightarrow>
          (case do_get env (weather_request self lat' lon') st1 of
             (Inl e, st2) \<Rightarrow> (except_request e, st2)
           | (Inr weather_response, st2) \<Rightarrow>
               if status_code air_response = 200 \<and> status_code weather_response = 200 then
                 (case json_result air_response of
                    Inl e \<Rightarrow> (except_request e, st2)
                  | Inr air_data \<Rightarrow>
                      (case json_result weather_response of
                         Inl e \<Rightarrow> (except_request e, st2)
                       | Inr weather_data \<Rightarrow>
                           (Inr \<lparr>success = True, air_quality = Some air_data,
                                 weather = Some weather_data, error = None\<rparr>, st2)))
               else (Inr (failed_fetch ''API request failed''), st2)))"

subsection \<open>\<^verbatim>\<open>process_and_save_data\<close>\<close>

text \<open>
  The values read before the clock is (lines 112 to 123), in the order of the source:
  \<open>components\<close>, \<open>aqi\<close>, \<open>temp\<close>, \<open>humidity\<close>, \<open>pressure\<close>, \<open>wind_speed\<close>.
\<close>

record extracted =
  x_components :: json
  x_aqi :: json
  x_temp :: json
  x_humidity :: json
  x_pressure :: json
  x_wind_speed :: json

definition dict_key :: "'a option \<Rightarrow> string \<Rightarrow> exn + 'a" where
  "dict_key v k = (case v of None \<Rightarrow> Inl (Exn KeyError k) | Some x \<Rightarrow> Inr x)"

definition extract_fields :: "api_data \<Rightarrow> exn + extracted" where
  "extract_fields d =
     bind_exn (dict_key (air_quality d) ''air_quality'') (\<lambda>air.
     bind_exn (dict_key (weather d) ''weather'') (\<lambda>wea.
     bind_exn (bind_exn (bind_exn (getitem air ''list'') getitem0)
                 (\<lambda>e. getitem e ''components'')) (\<lambda>components.
     bind_exn (bind_exn (bind_exn (bind_exn (getitem air ''list'') getitem0)
                 (\<lambda>e. getitem e ''main'')) (\<lambda>m. getitem m ''aqi'')) (\<lambda>aqi.
     bind_exn (bind_exn (getitem wea ''main'') (\<lambda>m. getitem m ''temp'')) (\<lambda>temp.
     bind_exn (bind_exn (getitem wea ''main'') (\<lambda>m. getitem m ''humidity'')) (\<lambda>humidity.
     bind_exn (bind_exn (getitem wea ''main'') (\<lambda>m. getitem m ''pressure'')) (\<lambda>pressure.
     bind_exn (bind_exn (get_default wea ''wind'' (JObj []))
                 (\<lambda>w. get_default w ''speed'' JNull)) (\<lambda>wind_speed.
     Inr \<lparr>x_components = components, x_aqi = aqi, x_temp = temp, x_humidity = humidity,
          x_pressure = pressure, x_wind_speed = wind_speed\<rparr>))))))))"

text \<open>
  The keyword arguments of the call (lines 130 to 143), evaluated left to right; each
  \<^verbatim>\<open>components.get\<close> raises when \<open>components\<close> is no dict.
\<close>

definition build_args :: "location \<Rightarrow> extracted \<Rightarrow> string \<Rightarrow> exn + measurement" where
  "build_args location x ts =
     bind_exn (get_default (x_components x) ''pm2_5'' JNull) (\<lambda>v_pm2_5.
     bind_exn (get_default (x_components x) ''pm10'' JNull) (\<lambda>v_pm10.
     bind_exn (get_default (x_components x) ''o3'' JNull) (\<lambda>v_o3.
     bind_exn (get_default (x_components x) ''no2'' JNull) (\<lambda>v_no2.
     Inr \<lparr>location_id = loc_id location, location_name = loc_name location,
          lat = loc_lat location, lon = loc_lon location, timestamp = ts,
          pm2_5 = v_pm2_5, pm10 = v_pm10, o3 = v_o3, no2 = v_no2,
          aqi = x_aqi x, temp = x_temp x, humidity = x_humidity x,
          pressure = x_pressure x, wind_speed = x_wind_speed x\<rparr>))))"

text \<open>
  The record the method hands to the store, as a function of the location, the fetch
  result and the time stamp read from the clock.
\<close>

definition normalize_record :: "location \<Rightarrow> api_data \<Rightarrow> string \<Rightarrow> exn + measurement" where
  "normalize_record location d ts = bind_exn (extract_fields d) (\<lambda>x. build_args location x ts)"

text \<open>
  \<^verbatim>\<open>except Exception\<close>: the method returns \<^verbatim>\<open>False\<close>; what is raised outside
  \<^verbatim>\<open>Exception\<close> leaves the method.
\<close>

definition except_Exception :: "exn \<Rightarrow> exn + bool" where
  "except_Exception e = (if is_Exception e then Inr False else Inl e)"

definition process_and_save_data ::
  "'w env \<Rightarrow> location \<Rightarrow> api_data \<Rightarrow> 'w state \<Rightarrow> (exn + bool) \<times> 'w state" where
  "process_and_save_data env location d st =
     (case extract_fields d of
        Inl e \<Rightarrow> (except_Exception e, st)
      | Inr x \<Rightarrow>
          (case do_now env st of
             (ts, st1) \<Rightarrow>
               (case build_args location x ts of
                  Inl e \<Rightarrow> (except_Exception e, st1)
                | Inr r \<Rightarrow>
                    (case do_insert env r st1 of
                       (Inl e, st2) \<Rightarrow> (except_Exception e, st2)
                     | (Inr ok, st2) \<Rightarrow> (Inr ok, st2)))))"

subsection \<open>\<^verbatim>\<open>collect_all_locations\<close> and \<^verbatim>\<open>collect_single_location\<close>\<close>

text \<open>
  The \<^verbatim>\<open>for\<close> loop over \<^verbatim>\<open>self.locations\<close>, with the two counters as accumulator.
  \<^verbatim>\<open>time.sleep(2)\<close> ends every iteration.
\<close>

fun collect_loop ::
  "'w env \<Rightarrow> collector \<Rightarrow> location list \<Rightarrow> nat \<times> nat \<Rightarrow> 'w state
    \<Rightarrow> (exn + nat \<times> nat) \<times> 'w state" where
  "collect_loop env self [] (successful, failed) st = (Inr (successful, failed), st)"
| "collect_loop env self (location # rest) (successful, failed) st =
     (case get_air_quality_data env self (loc_lat location) (loc_lon location) st of
        (Inl e, st1) \<Rightarrow> (Inl e, st1)
      | (Inr d, st1) \<Rightarrow>
          if success d then
            (case process_and_save_data env location d st1 of
               (Inl e, st2) \<Rightarrow> (Inl e, st2)
             | (Inr ok, st2) \<Rightarrow>
                 if ok then collect_loop env self rest (successful + 1, failed) (do_sleep env 2 st2)
                 else collect_loop env self rest (successful, failed + 1) (do_sleep env 2 st2))
          else collect_loop env self rest (successful, failed + 1) (do_sleep env 2 st1))"

definition collect_all_locations ::
  "'w env \<Rightarrow> collector \<Rightarrow> 'w state \<Rightarrow> (exn + nat \<times> nat) \<times> 'w state" where
  "collect_all_locations env self st = collect_loop env self (locations self) (0, 0) st"


text \<open>
  Both methods run the same sequence for one location: the fetch, then, when it
  succeeded, the processing. \<open>fetch_and_store\<close> names this sequence for the proofs; the
  two lemmas \<open>collect_loop_Cons\<close> and \<open>collect_single_location_eq\<close> below relate the
  methods to it.
\<close>

definition fetch_and_store ::
  "'w env \<Rightarrow> collector \<Rightarrow> location \<Rightarrow> 'w state \<Rightarrow> (exn + bool) \<times> 'w state" where
  "fetch_and_store env self location st =
     (case get_air_quality_data env self (loc_lat location) (loc_lon location) st of
        (Inl e, st1) \<Rightarrow> (Inl e, st1)
      | (Inr d, st1) \<Rightarrow>
          if success d then process_and_save_data env location d st1
          else (Inr False, st1))"

subsection \<open>Vocabulary of the properties\<close>

text \<open>
  The errors the outside world produces. A transport failure is a
  \<^verbatim>\<open>RequestException\<close> (\<^verbatim>\<open>Timeout\<close> included), and so is the error of \<^verbatim>\<open>.json()\<close> on a
  body that is not JSON (\<^verbatim>\<open>requests.exceptions.JSONDecodeError\<close>); a failure of the
  store is an \<^verbatim>\<open>Exception\<close>.
\<close>

definition transport_errors_only :: "'w env \<Rightarrow> bool" where
  "transport_errors_only env \<longleftrightarrow>
     (\<forall>w req. case fst (requests_get env w req) of
        Inl e \<Rightarrow> is_RequestException e
      | Inr r \<Rightarrow> (case json_result r of Inl e \<Rightarrow> is_RequestException e | Inr j \<Rightarrow> True))"

definition sink_errors_only :: "'w env \<Rightarrow> bool" where
  "sink_errors_only env \<longleftrightarrow>
     (\<forall>w r. case fst (insert_air_quality_data env w r) of
        Inl e \<Rightarrow> is_Exception e | Inr ok \<Rightarrow> True)"

fun is_Insert :: "event \<Rightarrow> bool" where
  "is_Insert (Insert r) = True"
| "is_Insert e = False"

fun is_Sleep :: "event \<Rightarrow> bool" where
  "is_Sleep (Sleep n) = True"
| "is_Sleep e = False"

text \<open>The records handed to the store, and the requests sent, in the order of the trace.\<close>

fun inserted :: "event list \<Rightarrow> measurement list" where
  "inserted [] = []"
| "inserted (Insert r # es) = r # inserted es"
| "inserted (e # es) = inserted es"

fun requested :: "event list \<Rightarrow> request list" where
  "requested [] = []"
| "requested (HttpGet req # es) = req # requested es"
| "requested (e # es) = requested es"

text \<open>
  The first entry of the pollution payload's list, and whether it holds the index
  \<^verbatim>\<open>main.aqi\<close>.
\<close>

definition first_entry :: "json \<Rightarrow> exn + json" where
  "first_entry air = bind_exn (getitem air ''list'') getitem0"

fun has_key :: "json \<Rightarrow> string \<Rightarrow> bool" where
  "has_key (JObj kvs) k = (map_of kvs k \<noteq> None)"
| "has_key v k = False"

definition has_index :: "json \<Rightarrow> bool" where
  "has_index entry \<longleftrightarrow>
     (case getitem entry ''main'' of Inl e \<Rightarrow> False | Inr m \<Rightarrow> has_key m ''aqi'')"

text \<open>
  A weather payload is complete when \<^verbatim>\<open>main\<close> holds the three required values and
  \<^verbatim>\<open>wind\<close> is absent or a dict.
\<close>

definition weather_complete :: "json \<Rightarrow> bool" where
  "weather_complete wea \<longleftrightarrow>
     (case getitem wea ''main'' of
        Inl e \<Rightarrow> False
      | Inr m \<Rightarrow> has_key m ''temp'' \<and> has_key m ''humidity'' \<and> has_key m ''pressure'')
     \<and> (case get_default wea ''wind'' (JObj []) of
          Inr (JObj kvs) \<Rightarrow> True | _ \<Rightarrow> False)"

text \<open>
  A pollution payload is complete when its first entry holds the index and a dict of
  components.
\<close>

definition air_complete :: "json \<Rightarrow> bool" where
  "air_complete air \<longleftrightarrow>
     (case first_entry air of
        Inl e \<Rightarrow> False
      | Inr entry \<Rightarrow>
          has_index entry
          \<and> (case getitem entry ''components'' of Inr (JObj kvs) \<Rightarrow> True | _ \<Rightarrow> False))"

text \<open>\<^verbatim>\<open>d.get(k)\<close> on the items of a dict: the value, or \<^verbatim>\<open>None\<close> for a key that is absent.\<close>

definition opt_value :: "(string \<times> json) list \<Rightarrow> string \<Rightarrow> json" where
  "opt_value kvs k = (case map_of kvs k of None \<Rightarrow> JNull | Some v \<Rightarrow> v)"

text \<open>
  An upstream API that answers every request of the collector with status 200 and a
  complete payload, and a store that accepts every record.
\<close>

definition api_complete :: "'w env \<Rightarrow> collector \<Rightarrow> bool" where
  "api_complete env self \<longleftrightarrow>
     (\<forall>w la lo.
        (case fst (requests_get env w (air_request self la lo)) of
           Inl e \<Rightarrow> False
         | Inr r \<Rightarrow> status_code r = 200
             \<and> (case json_result r of Inl e \<Rightarrow> False | Inr j \<Rightarrow> air_complete j))
      \<and> (case fst (requests_get env w (weather_request self la lo)) of
           Inl e \<Rightarrow> False
         | Inr r \<Rightarrow> status_code r = 200
             \<and> (case json_result r of Inl e \<Rightarrow> False | Inr j \<Rightarrow> weather_complete j)))"

definition sink_accepts :: "'w env \<Rightarrow> bool" where
  "sink_accepts env \<longleftrightarrow> (\<forall>w r. fst (insert_air_quality_data env w r) = Inr True)"

text \<open>
  The whole sequence succeeds for a location from a given state: the fetch succeeds, the
  record is built and the store reports success.
\<close>

definition stored_ok :: "'w env \<Rightarrow> location \<Rightarrow> api_data \<Rightarrow> 'w state \<Rightarrow> bool" where
  "stored_ok env location d st \<longleftrightarrow>
     (case normalize_record location d (fst (now env (world st))) of
        Inl e \<Rightarrow> False
      | Inr r \<Rightarrow>
          fst (insert_air_quality_data env (snd (now env (world st))) r) = Inr True)"

definition pipeline_succeeds :: "'w env \<Rightarrow> collector \<Rightarrow> location \<Rightarrow> 'w state \<Rightarrow> bool" where
  "pipeline_succeeds env self location st \<longleftrightarrow>
     (case get_air_quality_data env self (loc_lat location) (loc_lon location) st of
        (Inl e, st1) \<Rightarrow> False
      | (Inr d, st1) \<Rightarrow> success d \<and> stored_ok env location d st1)"

text \<open>
  The record the sequence builds for a location from a given state, if any: the fetch
  succeeded and the payloads give a record at the reading of the clock.
\<close>

definition attempted_record ::
  "'w env \<Rightarrow> collector \<Rightarrow> location \<Rightarrow> 'w state \<Rightarrow> measurement option" where
  "attempted_record env self location st =
     (case get_air_quality_data env self (loc_lat location) (loc_lon location) st of
        (Inl e, st1) \<Rightarrow> None
      | (Inr d, st1) \<Rightarrow>
          if success d then
            (case normalize_record location d (fst (now env (world st1))) of
               Inl e \<Rightarrow> None | Inr r \<Rightarrow> Some r)
          else None)"

text \<open>
  The state in which the loop goes on to the next location, and, along a run, the
  outcome of every location and the records built, in the order of the registry.
\<close>

definition after_location ::
  "'w env \<Rightarrow> collector \<Rightarrow> location \<Rightarrow> 'w state \<Rightarrow> 'w state" where
  "after_location env self location st =
     do_sleep env 2 (snd (fetch_and_store env self location st))"

fun outcomes :: "'w env \<Rightarrow> collector \<Rightarrow> location list \<Rightarrow> 'w state \<Rightarrow> bool list" where
  "outcomes env self [] st = []"
| "outcomes env self (location # rest) st =
     pipeline_succeeds env self location st
       # outcomes env self rest (after_location env self location st)"

fun attempts ::
  "'w env \<Rightarrow> collector \<Rightarrow> location list \<Rightarrow> 'w state \<Rightarrow> measurement list" where
  "attempts env self [] st = []"
| "attempts env self (location # rest) st =
     (case attempted_record env self location st of None \<Rightarrow> [] | Some r \<Rightarrow> [r])
       @ attempts env self rest (after_location env self location st)"

subsection \<open>Concrete inputs\<close>

definition demo_collector :: collector where
  "demo_collector =
     \<lparr>api_key = ''key'', base_url = ''u'',
      locations =
        [\<lparr>loc_id = ''a'', loc_name = ''A'', loc_lat = 1, loc_lon = 2\<rparr>,
         \<lparr>loc_id = ''b'', loc_name = ''B'', loc_lat = 3, loc_lon = 4\<rparr>]\<rparr>"

definition demo_air :: json where
  "demo_air =
     JObj [(''list'',
       JList [JObj [(''main'', JObj [(''aqi'', JNum 2)]),
                    (''components'',
                       JObj [(''pm2_5'', JNum 5), (''pm10'', JNum 7),
                             (''o3'', JNum 60), (''no2'', JNum 1)])]])]"

definition demo_air_no_pm2_5 :: json where
  "demo_air_no_pm2_5 =
     JObj [(''list'',
       JList [JObj [(''main'', JObj [(''aqi'', JNum 2)]),
                    (''components'',
                       JObj [(''pm10'', JNum 7), (''o3'', JNum 60), (''no2'', JNum 1)])]])]"

definition demo_air_no_aqi :: json where
  "demo_air_no_aqi =
     JObj [(''list'',
       JList [JObj [(''main'', JObj []),
                    (''components'', JObj [(''pm2_5'', JNum 5)])]])]"

definition demo_weather :: json where
  "demo_weather =
     JObj [(''main'', JObj [(''temp'', JNum 30), (''humidity'', JNum 70),
                            (''pressure'', JNum 1010)]),
           (''wind'', JObj [(''speed'', JNum 3)])]"

definition fetched :: "json \<Rightarrow> json \<Rightarrow> api_data" where
  "fetched air wea =
     \<lparr>success = True, air_quality = Some air, weather = Some wea, error = None\<rparr>"

text \<open>
  A world without state: the answer to a request depends on the request only, the store
  answers every record alike, the clock shows one instant.
\<close>

definition demo_env :: "(request \<Rightarrow> exn + response) \<Rightarrow> (exn + bool) \<Rightarrow> unit env" where
  "demo_env api sink =
     \<lparr>requests_get = (\<lambda>w req. (api req, w)),
      insert_air_quality_data = (\<lambda>w r. (sink, w)),
      now = (\<lambda>w. (''2024-05-01T12:00:00+00:00'', w)),
      sleep = (\<lambda>w n. w)\<rparr>"

definition demo_state :: "unit state" where
  "demo_state = \<lparr>world = (), trace = []\<rparr>"

definition respond :: "int \<Rightarrow> exn + json \<Rightarrow> exn + response" where
  "respond code body = Inr \<lparr>status_code = code, json_result = body\<rparr>"

text \<open>Five upstream behaviours, told apart by the \<^verbatim>\<open>units\<close> parameter of the weather request.\<close>

definition is_weather_request :: "request \<Rightarrow> bool" where
  "is_weather_request req \<longleftrightarrow> map_of (params req) ''units'' \<noteq> None"

definition api_good :: "request \<Rightarrow> exn + response" where
  "api_good req =
     (if is_weather_request req then respond 200 (Inr demo_weather)
      else respond 200 (Inr demo_air))"

definition api_weather_503 :: "request \<Rightarrow> exn + response" where
  "api_weather_503 req =
     (if is_weather_request req then respond 503 (Inr JNull)
      else respond 200 (Inr demo_air))"

definition api_weather_not_json :: "request \<Rightarrow> exn + response" where
  "api_weather_not_json req =
     (if is_weather_request req
      then respond 200 (Inl (Exn RequestException ''Expecting value: line 1 column 1 (char 0)''))
      else respond 200 (Inr demo_air))"

definition api_no_aqi :: "request \<Rightarrow> exn + response" where
  "api_no_aqi req =
     (if is_weather_request req then respond 200 (Inr demo_weather)
      else respond 200 (Inr demo_air_no_aqi))"

definition api_air_timeout :: "request \<Rightarrow> exn + response" where
  "api_air_timeout req =
     (if is_weather_request req then respond 200 (Inr demo_weather)
      else Inl (Exn Timeout ''Read timed out''))"

text \<open>
  Two more upstream behaviours: a weather body that is not JSON whose decoding raises a
  \<^verbatim>\<open>ValueError\<close> (no \<^verbatim>\<open>RequestException\<close>), and a weather request that times out
  for the second location only. And a weather payload whose \<^verbatim>\<open>wind\<close> is \<^verbatim>\<open>null\<close>.
\<close>

definition api_weather_value_error :: "request \<Rightarrow> exn + response" where
  "api_weather_value_error req =
     (if is_weather_request req
      then respond 200 (Inl (Exn Exception ''Expecting value: line 1 column 1 (char 0)''))
      else respond 200 (Inr demo_air))"

definition api_second_times_out :: "request \<Rightarrow> exn + response" where
  "api_second_times_out req =
     (if is_weather_request req \<and> map_of (params req) ''lat'' = Some (PFloat 3)
      then Inl (Exn Timeout ''Read timed out'')
      else api_good req)"

definition demo_weather_wind_null :: json where
  "demo_weather_wind_null =
     JObj [(''main'', JObj [(''temp'', JNum 30), (''humidity'', JNum 70),
                            (''pressure'', JNum 1010)]),
           (''wind'', JNull)]"

section \<open>Properties\<close>

subsection \<open>Auxiliary facts\<close>

text \<open>The registry of the source: eight locations with pairwise different ids.\<close>

lemma registry_ids: "length registry = 8" "distinct (map loc_id registry)"
  by (simp_all add: registry_def)

lemma init_locations: "locations (init key) = registry"
  by (simp add: init_def)

lemma do_get_trace: "do_get env req st = (out, st') \<Longrightarrow> trace st' = trace st @ [HttpGet req]"
  by (auto simp: do_get_def split: prod.splits)

lemma do_get_out: "do_get env req st = (out, st') \<Longrightarrow> out = fst (requests_get env (world st) req)"
  by (auto simp: do_get_def split: prod.splits)

lemma do_insert_trace: "do_insert env r st = (out, st') \<Longrightarrow> trace st' = trace st @ [Insert r]"
  by (auto simp: do_insert_def split: prod.splits)

lemma do_insert_out:
  "do_insert env r st = (out, st') \<Longrightarrow> out = fst (insert_air_quality_data env (world st) r)"
  by (auto simp: do_insert_def split: prod.splits)

lemma do_now_trace: "do_now env st = (ts, st') \<Longrightarrow> trace st' = trace st \<and> ts = fst (now env (world st)) \<and> world st' = snd (now env (world st))"
  by (auto simp: do_now_def split: prod.splits)

lemma except_request_ok:
  "is_RequestException e \<Longrightarrow> \<exists>msg. except_request e = Inr (failed_fetch msg)"
  by (auto simp: except_request_def)


lemma collect_loop_Cons:
  "collect_loop env self (location # rest) (successful, failed) st =
     (case fetch_and_store env self location st of
        (Inl e, st1) \<Rightarrow> (Inl e, st1)
      | (Inr ok, st1) \<Rightarrow>
          collect_loop env self rest
            (if ok then (successful + 1, failed) else (successful, failed + 1))
            (do_sleep env 2 st1))"
  by (auto simp: fetch_and_store_def split: prod.splits sum.splits)

declare collect_loop.simps(2) [simp del]


text \<open>A fetch sends the pollution request, then at most the weather request.\<close>

lemma get_air_quality_data_trace:
  assumes "get_air_quality_data env self la lo st = (r, st')"
  shows "trace st' = trace st @ [HttpGet (air_request self la lo)]
       \<or> trace st' = trace st @ [HttpGet (air_request self la lo), HttpGet (weather_request self la lo)]"
proof -
  obtain o1 st1 where g1: "do_get env (air_request self la lo) st = (o1, st1)" by force
  obtain o2 st2 where g2: "do_get env (weather_request self la lo) st1 = (o2, st2)" by force
  note t1 = do_get_trace[OF g1] and t2 = do_get_trace[OF g2]
  show ?thesis
    using assms g1 g2 t1 t2
    by (auto simp: get_air_quality_data_def split: sum.splits if_splits)
qed

lemma get_air_quality_data_returns:
  assumes "transport_errors_only env"
  shows "\<exists>d. fst (get_air_quality_data env self la lo st) = Inr d"
proof -
  obtain o1 st1 where g1: "do_get env (air_request self la lo) st = (o1, st1)" by force
  obtain o2 st2 where g2: "do_get env (weather_request self la lo) st1 = (o2, st2)" by force
  have t1: "case o1 of Inl e \<Rightarrow> is_RequestException e
      | Inr r \<Rightarrow> (case json_result r of Inl e \<Rightarrow> is_RequestException e | Inr j \<Rightarrow> True)"
    using assms do_get_out[OF g1] unfolding transport_errors_only_def by simp
  have t2: "case o2 of Inl e \<Rightarrow> is_RequestException e
      | Inr r \<Rightarrow> (case json_result r of Inl e \<Rightarrow> is_RequestException e | Inr j \<Rightarrow> True)"
    using assms do_get_out[OF g2] unfolding transport_errors_only_def by simp
  show ?thesis
    using t1 t2 g1 g2
    by (auto simp: get_air_quality_data_def split: sum.splits dest: except_request_ok)
qed

lemma is_Exception_getitem: "getitem v k = Inl e \<Longrightarrow> is_Exception e"
  by (cases v) (auto split: option.splits)

lemma is_Exception_getitem0: "getitem0 v = Inl e \<Longrightarrow> is_Exception e"
  by (induction v rule: getitem0.induct) auto

lemma is_Exception_get_default: "get_default v k d = Inl e \<Longrightarrow> is_Exception e"
  by (cases v) (auto split: option.splits)

lemma is_Exception_dict_key: "dict_key v k = Inl e \<Longrightarrow> is_Exception e"
  by (auto simp: dict_key_def split: option.splits)

lemma bind_exn_Inl:
  "bind_exn m f = Inl e \<Longrightarrow> m = Inl e \<or> (\<exists>x. m = Inr x \<and> f x = Inl e)"
  by (cases m) (auto simp: bind_exn_def)

lemma is_Exception_extract_fields: "extract_fields d = Inl e \<Longrightarrow> is_Exception e"
  unfolding extract_fields_def
  by (auto dest!: bind_exn_Inl
        dest: is_Exception_getitem is_Exception_getitem0 is_Exception_get_default is_Exception_dict_key)

lemma is_Exception_build_args: "build_args loc x ts = Inl e \<Longrightarrow> is_Exception e"
  unfolding build_args_def
  by (auto dest!: bind_exn_Inl dest: is_Exception_get_default)

lemma build_args_location_id: "build_args loc x ts = Inr m \<Longrightarrow> location_id m = loc_id loc \<and> timestamp m = ts"
  unfolding build_args_def bind_exn_def
  by (auto split: sum.splits)

lemma normalize_location_id: "normalize_record loc d ts = Inr m \<Longrightarrow> location_id m = loc_id loc \<and> timestamp m = ts"
  unfolding normalize_record_def bind_exn_def
  by (auto split: sum.splits dest: build_args_location_id)


lemma process_and_save_data_trace:
  assumes "process_and_save_data env loc d st = (r, st')"
  shows "trace st' = trace st
       \<or> (\<exists>m. normalize_record loc d (fst (now env (world st))) = Inr m
              \<and> trace st' = trace st @ [Insert m])"
proof (cases "extract_fields d")
  case (Inl e)
  with assms show ?thesis by (simp add: process_and_save_data_def)
next
  case (Inr x)
  obtain ts st1 where n: "do_now env st = (ts, st1)" by force
  note nt = do_now_trace[OF n]
  show ?thesis
  proof (cases "build_args loc x ts")
    case (Inl e)
    with assms Inr n nt show ?thesis by (simp add: process_and_save_data_def)
  next
    case b: (Inr m)
    obtain out st2 where i: "do_insert env m st1 = (out, st2)" by force
    have "normalize_record loc d (fst (now env (world st))) = Inr m"
      using Inr b nt by (simp add: normalize_record_def bind_exn_def)
    moreover have "st' = st2"
      using assms Inr n b i by (auto simp: process_and_save_data_def split: sum.splits)
    ultimately show ?thesis
      using do_insert_trace[OF i] nt by simp
  qed
qed

lemma process_and_save_data_returns:
  assumes "sink_errors_only env"
  shows "\<exists>ok. fst (process_and_save_data env loc d st) = Inr ok"
proof (cases "extract_fields d")
  case (Inl e)
  then show ?thesis
    by (auto simp: process_and_save_data_def except_Exception_def is_Exception_extract_fields)
next
  case (Inr x)
  obtain ts st1 where n: "do_now env st = (ts, st1)" by force
  show ?thesis
  proof (cases "build_args loc x ts")
    case (Inl e)
    with Inr n show ?thesis
      by (auto simp: process_and_save_data_def except_Exception_def is_Exception_build_args)
  next
    case b: (Inr m)
    obtain out st2 where i: "do_insert env m st1 = (out, st2)" by force
    have "case out of Inl e \<Rightarrow> is_Exception e | Inr ok \<Rightarrow> True"
      using assms do_insert_out[OF i] unfolding sink_errors_only_def by simp
    with Inr n b i show ?thesis
      by (auto simp: process_and_save_data_def except_Exception_def split: sum.splits)
  qed
qed

lemma fetch_and_store_returns:
  assumes "transport_errors_only env" "sink_errors_only env"
  shows "\<exists>ok. fst (fetch_and_store env self loc st) = Inr ok"
proof -
  obtain r st1 where g: "get_air_quality_data env self (loc_lat loc) (loc_lon loc) st = (r, st1)"
    by force
  from get_air_quality_data_returns[OF assms(1), of self "loc_lat loc" "loc_lon loc" st] g
  obtain d where d: "r = Inr d" by auto
  show ?thesis
    using g d process_and_save_data_returns[OF assms(2), of loc d st1]
    by (auto simp: fetch_and_store_def)
qed

text \<open>What the sequence for one location adds to the trace.\<close>

lemma fetch_and_store_trace:
  assumes "fetch_and_store env self loc st = (r, st')"
  shows "\<exists>new. trace st' = trace st @ new
           \<and> filter is_Sleep new = []
           \<and> (requested new = [air_request self (loc_lat loc) (loc_lon loc)]
              \<or> requested new = [air_request self (loc_lat loc) (loc_lon loc),
                                  weather_request self (loc_lat loc) (loc_lon loc)])
           \<and> (inserted new = [] \<or> (\<exists>m. inserted new = [m] \<and> location_id m = loc_id loc))"
proof -
  obtain g st1 where g: "get_air_quality_data env self (loc_lat loc) (loc_lon loc) st = (g, st1)"
    by force
  note gt = get_air_quality_data_trace[OF g]
  show ?thesis
  proof (cases "\<exists>d. g = Inr d \<and> success d")
    case False
    then have "st' = st1" using assms g
      by (auto simp: fetch_and_store_def split: sum.splits if_splits)
    with gt show ?thesis by auto
  next
    case True
    then obtain d where d: "g = Inr d" "success d" by auto
    then have p: "process_and_save_data env loc d st1 = (r, st')"
      using assms g by (simp add: fetch_and_store_def)
    from process_and_save_data_trace[OF p] gt show ?thesis
      by (auto dest: normalize_location_id)
  qed
qed

lemma inserted_append: "inserted (xs @ ys) = inserted xs @ inserted ys"
  by (induction xs rule: inserted.induct) auto

lemma requested_append: "requested (xs @ ys) = requested xs @ requested ys"
  by (induction xs rule: requested.induct) auto

lemma is_weather_request_simps:
  "is_weather_request (weather_request self la lo)"
  "\<not> is_weather_request (air_request self la lo)"
  by (simp_all add: is_weather_request_def weather_request_def air_request_def)

lemma do_sleep_trace: "trace (do_sleep env n st) = trace st @ [Sleep n]"
  by (simp add: do_sleep_def)

lemma collect_loop_tally:
  "collect_loop env self locs (s0, f0) st = (Inr (s, f), st')
     \<Longrightarrow> s + f = s0 + f0 + length locs \<and> s0 \<le> s \<and> f0 \<le> f"
proof (induction locs arbitrary: s0 f0 st)
  case Nil
  then show ?case by simp
next
  case (Cons loc rest)
  obtain r st1 where fs: "fetch_and_store env self loc st = (r, st1)" by force
  with Cons.prems obtain ok where ok: "r = Inr ok"
    by (cases r) (auto simp: collect_loop_Cons)
  show ?case
  proof (cases ok)
    case True
    with Cons.prems fs ok
    have "collect_loop env self rest (s0 + 1, f0) (do_sleep env 2 st1) = (Inr (s, f), st')"
      by (simp add: collect_loop_Cons)
    from Cons.IH[OF this] show ?thesis by simp
  next
    case False
    with Cons.prems fs ok
    have "collect_loop env self rest (s0, f0 + 1) (do_sleep env 2 st1) = (Inr (s, f), st')"
      by (simp add: collect_loop_Cons)
    from Cons.IH[OF this] show ?thesis by simp
  qed
qed

lemma collect_loop_returns:
  assumes "transport_errors_only env" "sink_errors_only env"
  shows "\<exists>t. fst (collect_loop env self locs acc st) = Inr t"
proof (induction locs arbitrary: acc st)
  case Nil
  show ?case by (cases acc) simp
next
  case (Cons loc rest)
  obtain s0 f0 where acc: "acc = (s0, f0)" by (cases acc)
  obtain r st1 where fs: "fetch_and_store env self loc st = (r, st1)" by force
  with fetch_and_store_returns[OF assms, of self loc st] obtain ok where ok: "r = Inr ok"
    by auto
  show ?case
    using Cons.IH[of "if ok then (s0 + 1, f0) else (s0, f0 + 1)" "do_sleep env 2 st1"]
    by (simp add: acc collect_loop_Cons fs ok)
qed

lemma collect_loop_inserted:
  "collect_loop env self locs acc st = (res, st')
     \<Longrightarrow> \<exists>new. trace st' = trace st @ new
           \<and> subseq (map location_id (inserted new)) (map loc_id locs)"
proof (induction locs arbitrary: acc st)
  case Nil
  then show ?case by (cases acc) simp
next
  case (Cons loc rest)
  obtain s0 f0 where acc: "acc = (s0, f0)" by (cases acc)
  obtain r st1 where fs: "fetch_and_store env self loc st = (r, st1)" by force
  from fetch_and_store_trace[OF fs] obtain n1 where
    n1: "trace st1 = trace st @ n1"
      "inserted n1 = [] \<or> (\<exists>m. inserted n1 = [m] \<and> location_id m = loc_id loc)"
    by blast
  show ?case
  proof (cases r)
    case (Inl e)
    with Cons.prems fs acc have "st' = st1" by (simp add: collect_loop_Cons)
    with n1 show ?thesis by auto
  next
    case (Inr ok)
    with Cons.prems fs acc
    have "collect_loop env self rest (if ok then (s0 + 1, f0) else (s0, f0 + 1))
            (do_sleep env 2 st1) = (res, st')"
      by (simp add: collect_loop_Cons)
    from Cons.IH[OF this] obtain n2 where
      n2: "trace st' = trace (do_sleep env 2 st1) @ n2"
        "subseq (map location_id (inserted n2)) (map loc_id rest)"
      by blast
    have "trace st' = trace st @ (n1 @ Sleep 2 # n2)"
      using n1 n2 by (simp add: do_sleep_trace)
    moreover have "subseq (map location_id (inserted (n1 @ Sleep 2 # n2))) (map loc_id (loc # rest))"
      using n1(2) n2(2) by (auto simp: inserted_append)
    ultimately show ?thesis by blast
  qed
qed

lemma collect_loop_visits:
  "collect_loop env self locs acc st = (Inr t, st')
     \<Longrightarrow> \<exists>new. trace st' = trace st @ new
           \<and> length (filter is_Sleep new) = length locs
           \<and> filter (\<lambda>r. \<not> is_weather_request r) (requested new)
               = map (\<lambda>l. air_request self (loc_lat l) (loc_lon l)) locs"
proof (induction locs arbitrary: acc st)
  case Nil
  then show ?case by (cases acc) simp
next
  case (Cons loc rest)
  obtain s0 f0 where acc: "acc = (s0, f0)" by (cases acc)
  obtain r st1 where fs: "fetch_and_store env self loc st = (r, st1)" by force
  from fetch_and_store_trace[OF fs] obtain n1 where
    n1: "trace st1 = trace st @ n1" "filter is_Sleep n1 = []"
      "requested n1 = [air_request self (loc_lat loc) (loc_lon loc)]
       \<or> requested n1 = [air_request self (loc_lat loc) (loc_lon loc),
                          weather_request self (loc_lat loc) (loc_lon loc)]"
    by blast
  from Cons.prems fs acc obtain ok where ok: "r = Inr ok"
    by (cases r) (auto simp: collect_loop_Cons)
  with Cons.prems fs acc
  have "collect_loop env self rest (if ok then (s0 + 1, f0) else (s0, f0 + 1))
          (do_sleep env 2 st1) = (Inr t, st')"
    by (simp add: collect_loop_Cons)
  from Cons.IH[OF this] obtain n2 where
    n2: "trace st' = trace (do_sleep env 2 st1) @ n2"
      "length (filter is_Sleep n2) = length rest"
      "filter (\<lambda>r. \<not> is_weather_request r) (requested n2)
         = map (\<lambda>l. air_request self (loc_lat l) (loc_lon l)) rest"
    by blast
  have "trace st' = trace st @ (n1 @ Sleep 2 # n2)"
    using n1 n2 by (simp add: do_sleep_trace)
  moreover have "length (filter is_Sleep (n1 @ Sleep 2 # n2)) = length (loc # rest)"
    using n1(2) n2(2) by simp
  moreover have "filter (\<lambda>r. \<not> is_weather_request r) (requested (n1 @ Sleep 2 # n2))
      = map (\<lambda>l. air_request self (loc_lat l) (loc_lon l)) (loc # rest)"
    using n1(3) n2(3) by (auto simp: requested_append is_weather_request_simps)
  ultimately show ?case by blast
qed

lemmas demo_defs = demo_env_def demo_state_def demo_collector_def api_good_def api_weather_503_def
  api_no_aqi_def
  api_weather_not_json_def api_air_timeout_def respond_def is_weather_request_def
  demo_air_def demo_weather_def demo_air_no_pm2_5_def demo_air_no_aqi_def fetched_def

lemmas run_defs = collect_all_locations_def collect_loop.simps(2) get_air_quality_data_def process_and_save_data_def
  do_get_def do_insert_def do_now_def do_sleep_def air_request_def weather_request_def
  except_request_def except_Exception_def failed_fetch_def extract_fields_def build_args_def
  bind_exn_def dict_key_def

subsection \<open>The tally of a run\<close>

text \<open>
  Claim C1. A run of \<^verbatim>\<open>collect_all_locations\<close> that returns, returns a pair of counters
  whose sum is the number of locations of the registry: every location is counted once,
  as a success or as a failure. The run does return when the requests library raises
  only its own exceptions and the store raises only subclasses of \<^verbatim>\<open>Exception\<close>.
\<close>

theorem collect_all_locations_tally:
  "(transport_errors_only env \<and> sink_errors_only env \<longrightarrow>
      (\<exists>successful failed. fst (collect_all_locations env self st) = Inr (successful, failed)))
   \<and> (\<forall>successful failed.
        fst (collect_all_locations env self st) = Inr (successful, failed)
          \<longrightarrow> successful + failed = length (locations self))"
proof (intro conjI impI allI)
  assume "transport_errors_only env \<and> sink_errors_only env"
  then show "\<exists>successful failed. fst (collect_all_locations env self st) = Inr (successful, failed)"
    using collect_loop_returns[of env self "locations self" "(0, 0)" st]
    by (auto simp: collect_all_locations_def)
next
  fix successful failed
  assume r: "fst (collect_all_locations env self st) = Inr (successful, failed)"
  obtain st' where "collect_loop env self (locations self) (0, 0) st = (Inr (successful, failed), st')"
    using r by (cases "collect_loop env self (locations self) (0, 0) st")
      (simp add: collect_all_locations_def)
  from collect_loop_tally[OF this] show "successful + failed = length (locations self)"
    by simp
qed

theorem collect_all_locations_tally_witness:
  "transport_errors_only (demo_env api_weather_503 (Inr True))
   \<and> sink_errors_only (demo_env api_weather_503 (Inr True))
   \<and> fst (collect_all_locations (demo_env api_weather_503 (Inr True)) demo_collector demo_state)
       = Inr (0, 2)
   \<and> (0::nat) + 2 = length (locations demo_collector)"
proof -
  have a: "transport_errors_only (demo_env api_weather_503 (Inr True))"
    by (simp add: transport_errors_only_def demo_env_def api_weather_503_def respond_def)
  have b: "sink_errors_only (demo_env api_weather_503 (Inr True))"
    by (simp add: sink_errors_only_def demo_env_def)
  have c: "fst (collect_all_locations (demo_env api_weather_503 (Inr True)) demo_collector demo_state)
       = Inr (0, 2)"
    by (simp add: demo_defs run_defs)
  show ?thesis
    using a b c collect_all_locations_tally[of "demo_env api_weather_503 (Inr True)" demo_collector demo_state]
    by simp
qed

subsection \<open>The result of a fetch\<close>

lemma get_air_quality_data_cases:
  assumes a: "requests_get env (world st) (air_request self la lo) = (o1, w1)"
    and b: "requests_get env w1 (weather_request self la lo) = (o2, w2)"
  shows "get_air_quality_data env self la lo st =
     (case o1 of
        Inl e \<Rightarrow> (except_request e, \<lparr>world = w1, trace = trace st @ [HttpGet (air_request self la lo)]\<rparr>)
      | Inr r1 \<Rightarrow>
         (case o2 of
            Inl e \<Rightarrow> except_request e
          | Inr r2 \<Rightarrow>
              if status_code r1 = 200 \<and> status_code r2 = 200 then
                (case json_result r1 of
                   Inl e \<Rightarrow> except_request e
                 | Inr j1 \<Rightarrow>
                    (case json_result r2 of
                       Inl e \<Rightarrow> except_request e
                     | Inr j2 \<Rightarrow> Inr (fetched j1 j2)))
              else Inr (failed_fetch ''API request failed''),
          \<lparr>world = w2, trace = trace st @ [HttpGet (air_request self la lo),
                                            HttpGet (weather_request self la lo)]\<rparr>))"
  using a b
  by (auto simp: get_air_quality_data_def do_get_def fetched_def split: sum.splits)


subsection \<open>The order of the two requests\<close>

text \<open>
  Claim C10. A call of \<^verbatim>\<open>get_air_quality_data\<close> sends the pollution request first and
  after it at most the weather request. When the pollution request raises, the weather
  request is not sent: the call has made one request, and for a timeout or another
  transport error it returns a failed result.
\<close>

theorem get_air_quality_data_sequential:
  "(\<forall>r st'. get_air_quality_data env self la lo st = (r, st') \<longrightarrow>
       trace st' = trace st @ [HttpGet (air_request self la lo)]
     \<or> trace st' = trace st @ [HttpGet (air_request self la lo),
                                HttpGet (weather_request self la lo)])
   \<and> (\<forall>e. fst (requests_get env (world st) (air_request self la lo)) = Inl e \<longrightarrow>
         trace (snd (get_air_quality_data env self la lo st))
           = trace st @ [HttpGet (air_request self la lo)]
       \<and> (is_RequestException e \<longrightarrow>
            (\<exists>msg. fst (get_air_quality_data env self la lo st) = Inr (failed_fetch msg))))"
proof (intro conjI allI impI)
  fix r st'
  assume "get_air_quality_data env self la lo st = (r, st')"
  from get_air_quality_data_trace[OF this]
  show "trace st' = trace st @ [HttpGet (air_request self la lo)]
     \<or> trace st' = trace st @ [HttpGet (air_request self la lo),
                                HttpGet (weather_request self la lo)]" .
next
  fix e
  assume e: "fst (requests_get env (world st) (air_request self la lo)) = Inl e"
  then show "trace (snd (get_air_quality_data env self la lo st))
           = trace st @ [HttpGet (air_request self la lo)]"
    by (auto simp: get_air_quality_data_def do_get_def split: prod.splits)
next
  fix e
  assume e: "fst (requests_get env (world st) (air_request self la lo)) = Inl e"
  assume "is_RequestException e"
  from except_request_ok[OF this] e
  show "\<exists>msg. fst (get_air_quality_data env self la lo st) = Inr (failed_fetch msg)"
    by (auto simp: get_air_quality_data_def do_get_def split: prod.splits)
qed

theorem get_air_quality_data_sequential_witness:
  "fst (requests_get (demo_env api_air_timeout (Inr True)) (world demo_state)
          (air_request demo_collector 1 2)) = Inl (Exn Timeout ''Read timed out'')
   \<and> is_RequestException (Exn Timeout ''Read timed out'')
   \<and> get_air_quality_data (demo_env api_air_timeout (Inr True)) demo_collector 1 2 demo_state
       = (Inr (failed_fetch ''Timeout''),
          \<lparr>world = (), trace = [HttpGet (air_request demo_collector 1 2)]\<rparr>)"
proof -
  let ?E = "demo_env api_air_timeout (Inr True)"
  have a: "fst (requests_get ?E (world demo_state) (air_request demo_collector 1 2))
      = Inl (Exn Timeout ''Read timed out'')"
    by (simp add: demo_defs air_request_def)
  have b: "is_RequestException (Exn Timeout ''Read timed out'')" by simp
  have c: "get_air_quality_data ?E demo_collector 1 2 demo_state
       = (Inr (failed_fetch ''Timeout''),
          \<lparr>world = (), trace = [HttpGet (air_request demo_collector 1 2)]\<rparr>)"
    by (simp add: demo_defs run_defs)
  from get_air_quality_data_sequential[of ?E demo_collector 1 2 demo_state] a b c
  show ?thesis by simp
qed

subsection \<open>Building the record\<close>

lemma extract_fields_no_index:
  assumes "air_quality d = Some air" and "first_entry air = Inr entry" and "\<not> has_index entry"
  shows "\<exists>e. extract_fields d = Inl e"
proof -
  have "\<exists>e. bind_exn (bind_exn (bind_exn (getitem air ''list'') getitem0)
                 (\<lambda>e. getitem e ''main'')) (\<lambda>m. getitem m ''aqi'') = Inl e"
  proof (cases "getitem entry ''main''")
    case (Inl e)
    with assms(2) show ?thesis by (simp add: first_entry_def bind_exn_def)
  next
    case (Inr m)
    with assms(3) have "\<not> has_key m ''aqi''" by (simp add: has_index_def)
    then obtain e where "getitem m ''aqi'' = Inl e"
      by (cases m) (auto split: option.splits)
    with Inr assms(2) show ?thesis by (simp add: first_entry_def bind_exn_def)
  qed
  then show ?thesis
    using assms(1)
    by (auto simp: extract_fields_def bind_exn_def dict_key_def split: sum.splits option.splits)
qed

text \<open>
  Claim C5. When the first entry of the pollution payload's list lacks the index
  \<^verbatim>\<open>main.aqi\<close>, building the record fails with an exception, \<^verbatim>\<open>process_and_save_data\<close>
  returns \<^verbatim>\<open>False\<close> without calling the clock or the store (the state is unchanged),
  and the loop counts the location as failed.
\<close>

theorem missing_index_fails:
  assumes "air_quality d = Some air" and "first_entry air = Inr entry" and "\<not> has_index entry"
  shows "(\<exists>e. normalize_record location d ts = Inl e \<and> is_Exception e)
       \<and> process_and_save_data env location d st = (Inr False, st)
       \<and> (get_air_quality_data env self (loc_lat location) (loc_lon location) st0 = (Inr d, st)
            \<and> success d \<longrightarrow>
          collect_loop env self (location # rest) (successful, failed) st0
            = collect_loop env self rest (successful, failed + 1) (do_sleep env 2 st))"
proof -
  from extract_fields_no_index[OF assms] obtain e where e: "extract_fields d = Inl e" ..
  then have x: "is_Exception e" by (rule is_Exception_extract_fields)
  have p: "process_and_save_data env location d st = (Inr False, st)"
    using e x by (simp add: process_and_save_data_def except_Exception_def)
  show ?thesis
    using e x p by (auto simp: normalize_record_def bind_exn_def collect_loop.simps(2))
qed

theorem missing_index_fails_witness:
  "air_quality (fetched demo_air_no_aqi demo_weather) = Some demo_air_no_aqi
   \<and> first_entry demo_air_no_aqi
       = Inr (JObj [(''main'', JObj []), (''components'', JObj [(''pm2_5'', JNum 5)])])
   \<and> \<not> has_index (JObj [(''main'', JObj []), (''components'', JObj [(''pm2_5'', JNum 5)])])
   \<and> normalize_record \<lparr>loc_id = ''a'', loc_name = ''A'', loc_lat = 1, loc_lon = 2\<rparr>
        (fetched demo_air_no_aqi demo_weather) ''t'' = Inl (Exn KeyError ''aqi'')
   \<and> get_air_quality_data (demo_env api_no_aqi (Inr True)) demo_collector 1 2 demo_state
       = (Inr (fetched demo_air_no_aqi demo_weather),
          \<lparr>world = (), trace = [HttpGet (air_request demo_collector 1 2),
                                  HttpGet (weather_request demo_collector 1 2)]\<rparr>)
   \<and> process_and_save_data (demo_env api_no_aqi (Inr True))
        \<lparr>loc_id = ''a'', loc_name = ''A'', loc_lat = 1, loc_lon = 2\<rparr>
        (fetched demo_air_no_aqi demo_weather)
        \<lparr>world = (), trace = [HttpGet (air_request demo_collector 1 2),
                                HttpGet (weather_request demo_collector 1 2)]\<rparr>
       = (Inr False,
          \<lparr>world = (), trace = [HttpGet (air_request demo_collector 1 2),
                                  HttpGet (weather_request demo_collector 1 2)]\<rparr>)
   \<and> collect_loop (demo_env api_no_aqi (Inr True)) demo_collector
        [\<lparr>loc_id = ''a'', loc_name = ''A'', loc_lat = 1, loc_lon = 2\<rparr>] (0, 0) demo_state
       = (Inr (0, 1),
          \<lparr>world = (), trace = [HttpGet (air_request demo_collector 1 2),
                                  HttpGet (weather_request demo_collector 1 2), Sleep 2]\<rparr>)"
proof -
  let ?E = "demo_env api_no_aqi (Inr True)"
  let ?L = "\<lparr>loc_id = ''a'', loc_name = ''A'', loc_lat = 1, loc_lon = 2\<rparr>"
  let ?D = "fetched demo_air_no_aqi demo_weather"
  let ?S = "\<lparr>world = (), trace = [HttpGet (air_request demo_collector 1 2),
                                    HttpGet (weather_request demo_collector 1 2)]\<rparr>"
  have a: "air_quality ?D = Some demo_air_no_aqi"
    by (simp add: fetched_def)
  have b: "first_entry demo_air_no_aqi
       = Inr (JObj [(''main'', JObj []), (''components'', JObj [(''pm2_5'', JNum 5)])])"
    by (simp add: first_entry_def demo_air_no_aqi_def bind_exn_def)
  have c: "\<not> has_index (JObj [(''main'', JObj []), (''components'', JObj [(''pm2_5'', JNum 5)])])"
    by (simp add: has_index_def)
  have d: "normalize_record ?L ?D ''t'' = Inl (Exn KeyError ''aqi'')"
    by (simp add: normalize_record_def demo_defs run_defs)
  have e: "get_air_quality_data ?E demo_collector (loc_lat ?L) (loc_lon ?L) demo_state = (Inr ?D, ?S)"
    by (simp add: api_no_aqi_def demo_defs run_defs)
  have f: "success ?D" by (simp add: fetched_def)
  have g: "collect_loop ?E demo_collector [] (0, 0 + 1) (do_sleep ?E 2 ?S)
      = (Inr (0, 1),
          \<lparr>world = (), trace = [HttpGet (air_request demo_collector 1 2),
                                  HttpGet (weather_request demo_collector 1 2), Sleep 2]\<rparr>)"
    by (simp add: do_sleep_def demo_env_def)
  from missing_index_fails[OF a b c, of ?L "''t''" ?E ?S demo_collector demo_state "[]" 0 0]
  have "process_and_save_data ?E ?L ?D ?S = (Inr False, ?S)"
    and "collect_loop ?E demo_collector [?L] (0, 0) demo_state
       = collect_loop ?E demo_collector [] (0, 0 + 1) (do_sleep ?E 2 ?S)"
    using e f by blast+
  with a b c d e g show ?thesis by simp
qed

lemma build_args_timestamp:
  "build_args location x t2 = map_sum id (\<lambda>r. r\<lparr>timestamp := t2\<rparr>) (build_args location x t1)"
  by (simp add: build_args_def bind_exn_def split: sum.splits)

text \<open>
  Claim C9. The record built from a location and a fetch result depends on the time stamp
  only through its \<^verbatim>\<open>timestamp\<close> field: built at two instants, the two results fail
  alike or are records equal in every other field. The time stamp of the record is the
  one passed in, and \<^verbatim>\<open>process_and_save_data\<close> passes the reading of the clock, not a
  value of the payloads.
\<close>

theorem normalize_record_deterministic:
  "normalize_record location d t2
     = map_sum id (\<lambda>r. r\<lparr>timestamp := t2\<rparr>) (normalize_record location d t1)
   \<and> (\<forall>r. normalize_record location d ts = Inr r \<longrightarrow> timestamp r = ts)
   \<and> (\<forall>res st'. process_and_save_data env location d st = (res, st') \<longrightarrow>
         trace st' = trace st
       \<or> (\<exists>r. normalize_record location d (fst (now env (world st))) = Inr r
              \<and> trace st' = trace st @ [Insert r]))"
proof (intro conjI allI impI)
  show "normalize_record location d t2
     = map_sum id (\<lambda>r. r\<lparr>timestamp := t2\<rparr>) (normalize_record location d t1)"
    by (cases "extract_fields d")
      (simp_all add: normalize_record_def bind_exn_def build_args_timestamp[of location _ t2 t1])
next
  fix r assume "normalize_record location d ts = Inr r"
  then show "timestamp r = ts" by (simp add: normalize_location_id)
next
  fix res st' assume "process_and_save_data env location d st = (res, st')"
  from process_and_save_data_trace[OF this]
  show "trace st' = trace st
       \<or> (\<exists>r. normalize_record location d (fst (now env (world st))) = Inr r
              \<and> trace st' = trace st @ [Insert r])" .
qed

theorem normalize_record_deterministic_witness:
  "normalize_record \<lparr>loc_id = ''a'', loc_name = ''A'', loc_lat = 1, loc_lon = 2\<rparr>
      (fetched demo_air demo_weather) ''t1''
     = Inr \<lparr>location_id = ''a'', location_name = ''A'', lat = 1, lon = 2, timestamp = ''t1'',
            pm2_5 = JNum 5, pm10 = JNum 7, o3 = JNum 60, no2 = JNum 1, aqi = JNum 2,
            temp = JNum 30, humidity = JNum 70, pressure = JNum 1010, wind_speed = JNum 3\<rparr>
   \<and> normalize_record \<lparr>loc_id = ''a'', loc_name = ''A'', loc_lat = 1, loc_lon = 2\<rparr>
      (fetched demo_air demo_weather) ''t2''
     = Inr \<lparr>location_id = ''a'', location_name = ''A'', lat = 1, lon = 2, timestamp = ''t2'',
            pm2_5 = JNum 5, pm10 = JNum 7, o3 = JNum 60, no2 = JNum 1, aqi = JNum 2,
            temp = JNum 30, humidity = JNum 70, pressure = JNum 1010, wind_speed = JNum 3\<rparr>
   \<and> process_and_save_data (demo_env api_good (Inr True))
        \<lparr>loc_id = ''a'', loc_name = ''A'', loc_lat = 1, loc_lon = 2\<rparr>
        (fetched demo_air demo_weather) demo_state
     = (Inr True,
        \<lparr>world = (),
         trace = [Insert \<lparr>location_id = ''a'', location_name = ''A'', lat = 1, lon = 2,
            timestamp = ''2024-05-01T12:00:00+00:00'',
            pm2_5 = JNum 5, pm10 = JNum 7, o3 = JNum 60, no2 = JNum 1, aqi = JNum 2,
            temp = JNum 30, humidity = JNum 70, pressure = JNum 1010,
            wind_speed = JNum 3\<rparr>]\<rparr>)"
proof -
  let ?L = "\<lparr>loc_id = ''a'', loc_name = ''A'', loc_lat = 1, loc_lon = 2\<rparr>"
  let ?D = "fetched demo_air demo_weather"
  let ?E = "demo_env api_good (Inr True)"
  have a: "normalize_record ?L ?D ''t1''
     = Inr \<lparr>location_id = ''a'', location_name = ''A'', lat = 1, lon = 2, timestamp = ''t1'',
            pm2_5 = JNum 5, pm10 = JNum 7, o3 = JNum 60, no2 = JNum 1, aqi = JNum 2,
            temp = JNum 30, humidity = JNum 70, pressure = JNum 1010, wind_speed = JNum 3\<rparr>"
    by (simp add: normalize_record_def demo_defs run_defs)
  have b: "process_and_save_data ?E ?L ?D demo_state
     = (Inr True,
        \<lparr>world = (),
         trace = [Insert \<lparr>location_id = ''a'', location_name = ''A'', lat = 1, lon = 2,
            timestamp = ''2024-05-01T12:00:00+00:00'',
            pm2_5 = JNum 5, pm10 = JNum 7, o3 = JNum 60, no2 = JNum 1, aqi = JNum 2,
            temp = JNum 30, humidity = JNum 70, pressure = JNum 1010,
            wind_speed = JNum 3\<rparr>]\<rparr>)"
    by (simp add: demo_defs run_defs)
  from normalize_record_deterministic[of ?L ?D "''t2''" "''t1''" "''t1''" ?E demo_state] a b
  show ?thesis by simp
qed

subsection \<open>Collecting one location\<close>

lemma process_and_save_data_True_iff:
  "fst (process_and_save_data env location d st) = Inr True \<longleftrightarrow> stored_ok env location d st"
proof (cases "extract_fields d")
  case (Inl e)
  then show ?thesis
    by (simp add: process_and_save_data_def stored_ok_def normalize_record_def bind_exn_def
        except_Exception_def)
next
  case (Inr x)
  obtain ts st1 where n: "do_now env st = (ts, st1)" by force
  note nt = do_now_trace[OF n]
  show ?thesis
  proof (cases "build_args location x ts")
    case (Inl e)
    with Inr n nt show ?thesis
      by (simp add: process_and_save_data_def stored_ok_def normalize_record_def bind_exn_def
          except_Exception_def)
  next
    case b: (Inr r)
    obtain out st2 where i: "do_insert env r st1 = (out, st2)" by force
    from do_insert_out[OF i] nt
    have o: "fst (insert_air_quality_data env (snd (now env (world st))) r) = out" by simp
    have p: "fst (process_and_save_data env location d st)
        = (case out of Inl e \<Rightarrow> except_Exception e | Inr ok \<Rightarrow> Inr ok)"
      using Inr n b i by (simp add: process_and_save_data_def split: sum.splits)
    have s: "stored_ok env location d st \<longleftrightarrow> out = Inr True"
      using Inr b nt o by (simp add: stored_ok_def normalize_record_def bind_exn_def)
    show ?thesis
      unfolding p s by (cases out) (auto simp: except_Exception_def)
  qed
qed

lemma fetch_and_store_True_iff:
  "fst (fetch_and_store env self location st) = Inr True \<longleftrightarrow> pipeline_succeeds env self location st"
  by (auto simp: fetch_and_store_def pipeline_succeeds_def process_and_save_data_True_iff
      split: prod.splits sum.splits)


subsection \<open>Runs in which everything succeeds\<close>

lemma has_key_getitem: "has_key m k \<Longrightarrow> \<exists>v. getitem m k = Inr v"
  by (cases m) auto

lemma normalize_record_value:
  assumes "first_entry air = Inr entry"
    and "getitem entry ''components'' = Inr (JObj cs)"
    and "getitem entry ''main'' = Inr m" and "getitem m ''aqi'' = Inr a"
    and "getitem wea ''main'' = Inr wm"
    and "getitem wm ''temp'' = Inr t"
    and "getitem wm ''humidity'' = Inr h"
    and "getitem wm ''pressure'' = Inr p"
    and "get_default wea ''wind'' (JObj []) = Inr (JObj ws)"
  shows "normalize_record location (fetched air wea) ts =
     Inr \<lparr>location_id = loc_id location, location_name = loc_name location,
          lat = loc_lat location, lon = loc_lon location, timestamp = ts,
          pm2_5 = opt_value cs ''pm2_5'', pm10 = opt_value cs ''pm10'',
          o3 = opt_value cs ''o3'', no2 = opt_value cs ''no2'',
          aqi = a, temp = t, humidity = h, pressure = p,
          wind_speed = opt_value ws ''speed''\<rparr>"
proof -
  have l: "(case getitem air ''list'' of Inl e \<Rightarrow> Inl e | Inr v \<Rightarrow> getitem0 v) = Inr entry"
    using assms(1) by (simp add: first_entry_def bind_exn_def)
  have x: "extract_fields (fetched air wea) =
     Inr \<lparr>x_components = JObj cs, x_aqi = a, x_temp = t, x_humidity = h,
          x_pressure = p, x_wind_speed = opt_value ws ''speed''\<rparr>"
    by (simp add: extract_fields_def bind_exn_def dict_key_def fetched_def opt_value_def
        l assms(2-9) split: option.splits)
  show ?thesis
    unfolding normalize_record_def x
    by (simp add: bind_exn_def build_args_def opt_value_def split: option.splits)
qed

lemma normalize_record_complete:
  assumes "air_complete air" and "weather_complete wea"
  shows "\<exists>r. normalize_record location (fetched air wea) ts = Inr r"
proof -
  from assms(1) obtain entry where e: "first_entry air = Inr entry" "has_index entry"
      "case getitem entry ''components'' of Inr (JObj kvs) \<Rightarrow> True | _ \<Rightarrow> False"
    by (auto simp: air_complete_def split: sum.splits)
  from e(3) obtain cs where cs: "getitem entry ''components'' = Inr (JObj cs)"
    by (auto split: sum.splits json.splits)
  from e(2) obtain m where m: "getitem entry ''main'' = Inr m" "has_key m ''aqi''"
    by (auto simp: has_index_def split: sum.splits)
  from has_key_getitem[OF m(2)] obtain a where a: "getitem m ''aqi'' = Inr a" ..
  from assms(2) obtain wm where wm: "getitem wea ''main'' = Inr wm"
      "has_key wm ''temp''" "has_key wm ''humidity''" "has_key wm ''pressure''"
    by (auto simp: weather_complete_def split: sum.splits)
  from has_key_getitem[OF wm(2)] obtain t where t: "getitem wm ''temp'' = Inr t" ..
  from has_key_getitem[OF wm(3)] obtain h where h: "getitem wm ''humidity'' = Inr h" ..
  from has_key_getitem[OF wm(4)] obtain p where p: "getitem wm ''pressure'' = Inr p" ..
  from assms(2) obtain ws where ws: "get_default wea ''wind'' (JObj []) = Inr (JObj ws)"
    by (auto simp: weather_complete_def split: sum.splits json.splits)
  from normalize_record_value[OF e(1) cs m(1) a wm(1) t h p ws] show ?thesis by blast
qed

lemma get_air_quality_data_complete:
  assumes "api_complete env self"
  shows "\<exists>air wea st1. get_air_quality_data env self la lo st = (Inr (fetched air wea), st1)
           \<and> air_complete air \<and> weather_complete wea"
proof -
  obtain o1 w1 where a: "requests_get env (world st) (air_request self la lo) = (o1, w1)"
    by force
  obtain o2 w2 where b: "requests_get env w1 (weather_request self la lo) = (o2, w2)"
    by force
  from assms have "case fst (requests_get env (world st) (air_request self la lo)) of
           Inl e \<Rightarrow> False
         | Inr r \<Rightarrow> status_code r = 200
             \<and> (case json_result r of Inl e \<Rightarrow> False | Inr j \<Rightarrow> air_complete j)"
    unfolding api_complete_def by blast
  with a obtain r1 j1 where r1: "o1 = Inr r1" "status_code r1 = 200" "json_result r1 = Inr j1"
      "air_complete j1"
    by (auto split: sum.splits)
  from assms have "case fst (requests_get env w1 (weather_request self la lo)) of
           Inl e \<Rightarrow> False
         | Inr r \<Rightarrow> status_code r = 200
             \<and> (case json_result r of Inl e \<Rightarrow> False | Inr j \<Rightarrow> weather_complete j)"
    unfolding api_complete_def by blast
  with b obtain r2 j2 where r2: "o2 = Inr r2" "status_code r2 = 200" "json_result r2 = Inr j2"
      "weather_complete j2"
    by (auto split: sum.splits)
  have "get_air_quality_data env self la lo st
      = (Inr (fetched j1 j2),
         \<lparr>world = w2, trace = trace st @ [HttpGet (air_request self la lo),
                                           HttpGet (weather_request self la lo)]\<rparr>)"
    using r1 r2 by (simp add: get_air_quality_data_cases[OF a b])
  with r1(4) r2(4) show ?thesis by blast
qed

lemma pipeline_succeeds_complete:
  assumes "api_complete env self" and "sink_accepts env"
  shows "pipeline_succeeds env self location st"
proof -
  from get_air_quality_data_complete[OF assms(1), of "loc_lat location" "loc_lon location" st]
  obtain air wea st1 where
    g: "get_air_quality_data env self (loc_lat location) (loc_lon location) st
          = (Inr (fetched air wea), st1)"
    and c: "air_complete air" "weather_complete wea"
    by blast
  from normalize_record_complete[OF c, of location "fst (now env (world st1))"]
  obtain r where "normalize_record location (fetched air wea) (fst (now env (world st1))) = Inr r" ..
  then have "stored_ok env location (fetched air wea) st1"
    using assms(2) by (simp add: stored_ok_def sink_accepts_def)
  with g show ?thesis by (simp add: pipeline_succeeds_def fetched_def)
qed

lemma process_and_save_data_Insert:
  assumes "normalize_record location d (fst (now env (world st))) = Inr r"
  shows "trace (snd (process_and_save_data env location d st)) = trace st @ [Insert r]"
proof -
  from assms obtain x where x: "extract_fields d = Inr x"
      "build_args location x (fst (now env (world st))) = Inr r"
    by (auto simp: normalize_record_def bind_exn_def split: sum.splits)
  obtain ts st1 where n: "do_now env st = (ts, st1)" by force
  note nt = do_now_trace[OF n]
  obtain out st2 where i: "do_insert env r st1 = (out, st2)" by force
  have "snd (process_and_save_data env location d st) = st2"
    using x n nt i by (auto simp: process_and_save_data_def split: sum.splits)
  with do_insert_trace[OF i] nt show ?thesis by simp
qed

lemma fetch_and_store_True_trace:
  assumes "fetch_and_store env self location st = (Inr True, st')"
  shows "\<exists>new. trace st' = trace st @ new \<and> map location_id (inserted new) = [loc_id location]"
proof -
  have "pipeline_succeeds env self location st"
    using assms fetch_and_store_True_iff[of env self location st] by simp
  then obtain d st1 where
    g: "get_air_quality_data env self (loc_lat location) (loc_lon location) st = (Inr d, st1)"
    and d: "success d" "stored_ok env location d st1"
    by (auto simp: pipeline_succeeds_def split: prod.splits sum.splits)
  from d(2) obtain r where r: "normalize_record location d (fst (now env (world st1))) = Inr r"
    by (auto simp: stored_ok_def split: sum.splits)
  have "process_and_save_data env location d st1 = (Inr True, st')"
    using assms g d(1) by (simp add: fetch_and_store_def)
  with process_and_save_data_Insert[OF r]
  have t: "trace st' = trace st1 @ [Insert r]" by simp
  have i: "location_id r = loc_id location"
    using normalize_location_id[OF r] by simp
  from get_air_quality_data_trace[OF g]
  have "\<exists>gets. trace st1 = trace st @ gets \<and> inserted gets = []"
  proof
    assume "trace st1 = trace st @ [HttpGet (air_request self (loc_lat location) (loc_lon location))]"
    moreover have "inserted [HttpGet (air_request self (loc_lat location) (loc_lon location))] = []"
      by simp
    ultimately show ?thesis by blast
  next
    assume "trace st1 = trace st @ [HttpGet (air_request self (loc_lat location) (loc_lon location)),
        HttpGet (weather_request self (loc_lat location) (loc_lon location))]"
    moreover have "inserted [HttpGet (air_request self (loc_lat location) (loc_lon location)),
        HttpGet (weather_request self (loc_lat location) (loc_lon location))] = []"
      by simp
    ultimately show ?thesis by blast
  qed
  then obtain gets where gets: "trace st1 = trace st @ gets" "inserted gets = []"
    by blast
  show ?thesis
  proof (intro exI conjI)
    show "trace st' = trace st @ (gets @ [Insert r])"
      using t gets(1) by simp
    show "map location_id (inserted (gets @ [Insert r])) = [loc_id location]"
      using gets(2) i by (simp add: inserted_append)
  qed
qed

lemma collect_loop_all_succeed:
  assumes "\<And>location st. pipeline_succeeds env self location st"
  shows "\<exists>st' new. collect_loop env self locs (s0, f0) st = (Inr (s0 + length locs, f0), st')
           \<and> trace st' = trace st @ new
           \<and> map location_id (inserted new) = map loc_id locs"
proof (induction locs arbitrary: s0 st)
  case Nil
  show ?case by simp
next
  case (Cons loc rest)
  obtain res st1 where fs: "fetch_and_store env self loc st = (res, st1)" by force
  have "fst (fetch_and_store env self loc st) = Inr True"
    using assms[of loc st] by (simp only: fetch_and_store_True_iff)
  then have res: "res = Inr True"
    by (simp only: fs fst_conv)
  have fs': "fetch_and_store env self loc st = (Inr True, st1)"
    using fs res by (simp only:)
  from fetch_and_store_True_trace[OF fs'] obtain n1 where
    "trace st1 = trace st @ n1 \<and> map location_id (inserted n1) = [loc_id loc]" ..
  then have n1: "trace st1 = trace st @ n1" "map location_id (inserted n1) = [loc_id loc]"
    by (rule conjunct1, rule conjunct2)
  from Cons.IH[of "s0 + 1" "do_sleep env 2 st1"] obtain st' where
    "\<exists>n2. collect_loop env self rest (s0 + 1, f0) (do_sleep env 2 st1)
           = (Inr (s0 + 1 + length rest, f0), st')
      \<and> trace st' = trace (do_sleep env 2 st1) @ n2
      \<and> map location_id (inserted n2) = map loc_id rest" ..
  then obtain n2 where
    "collect_loop env self rest (s0 + 1, f0) (do_sleep env 2 st1)
           = (Inr (s0 + 1 + length rest, f0), st')
      \<and> trace st' = trace (do_sleep env 2 st1) @ n2
      \<and> map location_id (inserted n2) = map loc_id rest" ..
  then have n2: "collect_loop env self rest (s0 + 1, f0) (do_sleep env 2 st1)
           = (Inr (s0 + 1 + length rest, f0), st')"
      "trace st' = trace (do_sleep env 2 st1) @ n2"
      "map location_id (inserted n2) = map loc_id rest"
    by simp_all
  show ?case
  proof (intro exI conjI)
    show "collect_loop env self (loc # rest) (s0, f0) st
        = (Inr (s0 + length (loc # rest), f0), st')"
      using n2(1) by (simp add: collect_loop_Cons fs')
    show "trace st' = trace st @ (n1 @ Sleep 2 # n2)"
      using n1(1) n2(2) by (simp add: do_sleep_trace)
    show "map location_id (inserted (n1 @ Sleep 2 # n2)) = map loc_id (loc # rest)"
      using n1(2) n2(3) by (simp add: inserted_append)
  qed
qed

text \<open>
  Claim C4. For a registry of two locations, an API that answers every request with
  status 200 and a complete payload, and a store that accepts every record,
  \<^verbatim>\<open>collect_all_locations\<close> returns \<open>(2, 0)\<close> and calls the store exactly twice; the
  \<open>location_id\<close> of the two records are the ids of the registry, in its order, and so
  distinct when the ids of the registry are.
\<close>

theorem collect_all_two_locations:
  assumes "length (locations self) = 2" and "api_complete env self" and "sink_accepts env"
  shows "\<exists>st' new. collect_all_locations env self st = (Inr (2, 0), st')
           \<and> trace st' = trace st @ new
           \<and> length (inserted new) = 2
           \<and> map location_id (inserted new) = map loc_id (locations self)
           \<and> (distinct (map loc_id (locations self))
                \<longrightarrow> distinct (map location_id (inserted new)))"
proof -
  have p: "\<And>location st. pipeline_succeeds env self location st"
    using assms(2,3) by (rule pipeline_succeeds_complete)
  from collect_loop_all_succeed[of env self "locations self" 0 0 st, OF p] obtain st' where
    "\<exists>new. collect_loop env self (locations self) (0, 0) st
           = (Inr (0 + length (locations self), 0), st')
      \<and> trace st' = trace st @ new
      \<and> map location_id (inserted new) = map loc_id (locations self)" ..
  then obtain new where
    "collect_loop env self (locations self) (0, 0) st
           = (Inr (0 + length (locations self), 0), st')
      \<and> trace st' = trace st @ new
      \<and> map location_id (inserted new) = map loc_id (locations self)" ..
  then have r: "collect_loop env self (locations self) (0, 0) st
           = (Inr (0 + length (locations self), 0), st')"
      "trace st' = trace st @ new"
      "map location_id (inserted new) = map loc_id (locations self)"
    by simp_all
  have 1: "collect_all_locations env self st = (Inr (2, 0), st')"
    using r(1) assms(1) by (simp add: collect_all_locations_def)
  have "length (map location_id (inserted new)) = length (map loc_id (locations self))"
    by (simp only: r(3))
  then have 2: "length (inserted new) = 2"
    using assms(1) by simp
  have 3: "distinct (map loc_id (locations self))
      \<longrightarrow> distinct (map location_id (inserted new))"
    by (simp only: r(3) simp_thms)
  show ?thesis
    by (intro exI conjI) (rule 1, rule r(2), rule 2, rule r(3), rule 3)
qed

theorem collect_all_two_locations_witness:
  "length (locations demo_collector) = 2
   \<and> api_complete (demo_env api_good (Inr True)) demo_collector
   \<and> sink_accepts (demo_env api_good (Inr True))
   \<and> distinct (map loc_id (locations demo_collector))
   \<and> fst (collect_all_locations (demo_env api_good (Inr True)) demo_collector demo_state)
       = Inr (2, 0)
   \<and> map location_id
        (inserted (trace (snd (collect_all_locations (demo_env api_good (Inr True))
           demo_collector demo_state))))
       = [''a'', ''b'']"
proof -
  let ?E = "demo_env api_good (Inr True)"
  have a: "length (locations demo_collector) = 2"
    by (simp add: demo_collector_def)
  have c1: "air_complete demo_air"
    by (simp add: air_complete_def first_entry_def has_index_def demo_air_def bind_exn_def)
  have c2: "weather_complete demo_weather"
    by (simp add: weather_complete_def demo_weather_def)
  have b: "api_complete ?E demo_collector"
    by (simp add: api_complete_def demo_env_def api_good_def respond_def
        is_weather_request_simps c1 c2)
  have c: "sink_accepts ?E"
    by (simp add: sink_accepts_def demo_env_def)
  have d: "distinct (map loc_id (locations demo_collector))"
    by (simp add: demo_collector_def)
  have e: "map loc_id (locations demo_collector) = [''a'', ''b'']"
    by (simp add: demo_collector_def)
  have f: "trace demo_state = []"
    by (simp add: demo_state_def)
  from collect_all_two_locations[OF a b c, of demo_state] a b c d e f
  show ?thesis by auto
qed

subsection \<open>Records handed to the store\<close>

text \<open>
  A run in which no record is attempted: the weather endpoint answers 503 for both
  locations of the registry, both are counted as failed and the store is never called.
\<close>

theorem collect_all_locations_no_attempt:
  "length (locations demo_collector) = 2
   \<and> collect_all_locations (demo_env api_weather_503 (Inr True)) demo_collector demo_state
       = (Inr (0, 2),
          \<lparr>world = (),
           trace = [HttpGet (air_request demo_collector 1 2),
                    HttpGet (weather_request demo_collector 1 2), Sleep 2,
                    HttpGet (air_request demo_collector 3 4),
                    HttpGet (weather_request demo_collector 3 4), Sleep 2]\<rparr>)
   \<and> inserted [HttpGet (air_request demo_collector 1 2),
                HttpGet (weather_request demo_collector 1 2), Sleep 2,
                HttpGet (air_request demo_collector 3 4),
                HttpGet (weather_request demo_collector 3 4), Sleep 2] = []"
  by (simp add: demo_defs run_defs)

subsection \<open>What the sequence for one location does\<close>

lemma process_and_save_data_Inr:
  assumes "normalize_record location d (fst (now env (world st))) = Inr r"
  shows "process_and_save_data env location d st =
     (case fst (insert_air_quality_data env (snd (now env (world st))) r) of
        Inl e \<Rightarrow> except_Exception e | Inr ok \<Rightarrow> Inr ok,
      \<lparr>world = snd (insert_air_quality_data env (snd (now env (world st))) r),
       trace = trace st @ [Insert r]\<rparr>)"
proof -
  from assms obtain x where x: "extract_fields d = Inr x"
      "build_args location x (fst (now env (world st))) = Inr r"
    by (auto simp: normalize_record_def bind_exn_def split: sum.splits)
  obtain ts w1 where n: "now env (world st) = (ts, w1)" by force
  obtain out w2 where i: "insert_air_quality_data env w1 r = (out, w2)" by force
  show ?thesis
    using x n i
    by (simp add: process_and_save_data_def do_now_def do_insert_def split: sum.splits)
qed

lemma normalize_record_Inl_any:
  "normalize_record location d ts = Inl e \<Longrightarrow> normalize_record location d ts' = Inl e"
  by (cases "extract_fields d")
    (auto simp: normalize_record_def bind_exn_def build_args_def split: sum.splits)

lemma process_and_save_data_Inl:
  assumes "normalize_record location d ts = Inl e"
  shows "fst (process_and_save_data env location d st) = Inr False
       \<and> trace (snd (process_and_save_data env location d st)) = trace st"
proof (cases "extract_fields d")
  case (Inl e')
  then show ?thesis
    by (simp add: process_and_save_data_def except_Exception_def is_Exception_extract_fields)
next
  case (Inr x)
  obtain ts' w1 where n: "now env (world st) = (ts', w1)" by force
  from assms Inr have "build_args location x ts = Inl e"
    by (simp add: normalize_record_def bind_exn_def)
  then have b: "build_args location x ts' = Inl e"
    by (auto simp: build_args_def bind_exn_def split: sum.splits)
  then have "is_Exception e" by (rule is_Exception_build_args)
  with Inr n b show ?thesis
    by (simp add: process_and_save_data_def do_now_def except_Exception_def)
qed

lemma fetch_and_store_inserted:
  "inserted (trace (snd (fetch_and_store env self location st)))
     = inserted (trace st)
       @ (case attempted_record env self location st of None \<Rightarrow> [] | Some r \<Rightarrow> [r])"
proof -
  obtain g st1 where g: "get_air_quality_data env self (loc_lat location) (loc_lon location) st
      = (g, st1)" by force
  from get_air_quality_data_trace[OF g]
  have i: "inserted (trace st1) = inserted (trace st)"
    by (rule disjE) (simp_all add: inserted_append)
  show ?thesis
  proof (cases g)
    case (Inl e)
    with g i show ?thesis by (simp add: fetch_and_store_def attempted_record_def)
  next
    case (Inr d)
    show ?thesis
    proof (cases "success d")
      case False
      with g i Inr show ?thesis by (simp add: fetch_and_store_def attempted_record_def)
    next
      case True
      show ?thesis
      proof (cases "normalize_record location d (fst (now env (world st1)))")
        case n: (Inl e)
        from process_and_save_data_Inl[OF n, of env st1] g i Inr True n
        show ?thesis by (simp add: fetch_and_store_def attempted_record_def)
      next
        case n: (Inr r)
        from process_and_save_data_Inr[OF n] g i Inr True n
        show ?thesis by (simp add: fetch_and_store_def attempted_record_def inserted_append)
      qed
    qed
  qed
qed

lemma fetch_and_store_Inr_iff:
  "fst (fetch_and_store env self location st) = Inr ok
     \<Longrightarrow> ok = pipeline_succeeds env self location st"
  using fetch_and_store_True_iff[of env self location st] by (cases ok) auto

lemma collect_loop_outcomes:
  "collect_loop env self locs (s0, f0) st = (Inr (s, f), st')
     \<Longrightarrow> s = s0 + length (filter id (outcomes env self locs st))
       \<and> f = f0 + length (filter Not (outcomes env self locs st))"
proof (induction locs arbitrary: s0 f0 st)
  case Nil
  then show ?case by simp
next
  case (Cons loc rest)
  obtain r st1 where fs: "fetch_and_store env self loc st = (r, st1)" by force
  with Cons.prems obtain ok where ok: "r = Inr ok"
    by (cases r) (auto simp: collect_loop_Cons)
  from fs ok have p: "ok = pipeline_succeeds env self loc st"
    using fetch_and_store_Inr_iff[of env self loc st ok] by simp
  have a: "after_location env self loc st = do_sleep env 2 st1"
    using fs by (simp add: after_location_def)
  show ?case
  proof (cases ok)
    case True
    with Cons.prems fs ok
    have "collect_loop env self rest (s0 + 1, f0) (do_sleep env 2 st1) = (Inr (s, f), st')"
      by (simp add: collect_loop_Cons)
    from Cons.IH[OF this] True p a show ?thesis by simp
  next
    case False
    with Cons.prems fs ok
    have "collect_loop env self rest (s0, f0 + 1) (do_sleep env 2 st1) = (Inr (s, f), st')"
      by (simp add: collect_loop_Cons)
    from Cons.IH[OF this] False p a show ?thesis by simp
  qed
qed

lemma inserted_do_sleep: "inserted (trace (do_sleep env n st)) = inserted (trace st)"
  by (simp add: do_sleep_def inserted_append)

lemma collect_loop_attempts:
  "collect_loop env self locs acc st = (Inr t, st')
     \<Longrightarrow> inserted (trace st') = inserted (trace st) @ attempts env self locs st"
proof (induction locs arbitrary: acc st)
  case Nil
  then show ?case by (cases acc) simp
next
  case (Cons loc rest)
  obtain s0 f0 where acc: "acc = (s0, f0)" by (cases acc)
  obtain r st1 where fs: "fetch_and_store env self loc st = (r, st1)" by force
  with Cons.prems acc obtain ok where ok: "r = Inr ok"
    by (cases r) (auto simp: collect_loop_Cons)
  have a: "after_location env self loc st = do_sleep env 2 st1"
    using fs by (simp add: after_location_def)
  from fetch_and_store_inserted[of env self loc st] fs
  have i: "inserted (trace st1) = inserted (trace st)
       @ (case attempted_record env self loc st of None \<Rightarrow> [] | Some r \<Rightarrow> [r])"
    by simp
  from Cons.prems fs ok acc
  have "collect_loop env self rest (if ok then (s0 + 1, f0) else (s0, f0 + 1))
          (do_sleep env 2 st1) = (Inr t, st')"
    by (simp add: collect_loop_Cons)
  from Cons.IH[OF this]
  have "inserted (trace st') = inserted (trace (do_sleep env 2 st1))
      @ attempts env self rest (do_sleep env 2 st1)" .
  with i a show ?case by (simp add: inserted_do_sleep)
qed

lemmas demo_defs2 = demo_defs api_weather_value_error_def api_second_times_out_def

lemmas ghost_defs = attempted_record_def after_location_def pipeline_succeeds_def stored_ok_def
  fetch_and_store_def normalize_record_def



lemma length_outcomes: "length (outcomes env self locs st) = length locs"
  by (induction locs arbitrary: st) simp_all






subsection \<open>The result of a fetch, in full\<close>



subsection \<open>No failure ends the run\<close>

text \<open>
  Claim C3, as amended. When the requests library (the two GET calls and the decoding of
  the bodies) raises only subclasses of \<^verbatim>\<open>RequestException\<close> and the store raises only
  subclasses of \<^verbatim>\<open>Exception\<close>, then whatever the API answers and whatever the store
  does, no exception leaves \<^verbatim>\<open>collect_all_locations\<close>: it returns its tally, in which
  the first counter is the number of locations for which the fetch succeeded, the record
  was built and the store reported success, and the second counter the number of all
  other locations; the pollution request is sent for every location in the order of the
  registry, and every iteration ends with its pause.
\<close>

theorem collect_all_locations_completes:
  assumes "transport_errors_only env" and "sink_errors_only env"
  shows "\<exists>successful failed st' new.
           collect_all_locations env self st = (Inr (successful, failed), st')
         \<and> successful = length (filter id (outcomes env self (locations self) st))
         \<and> failed = length (filter Not (outcomes env self (locations self) st))
         \<and> successful + failed = length (locations self)
         \<and> trace st' = trace st @ new
         \<and> length (filter is_Sleep new) = length (locations self)
         \<and> filter (\<lambda>r. \<not> is_weather_request r) (requested new)
             = map (\<lambda>l. air_request self (loc_lat l) (loc_lon l)) (locations self)"
proof -
  obtain res st' where run: "collect_loop env self (locations self) (0, 0) st = (res, st')"
    by force
  with collect_loop_returns[OF assms, of self "locations self" "(0, 0)" st]
  obtain successful failed where res: "res = Inr (successful, failed)" by auto
  note run' = run[unfolded res]
  from collect_loop_tally[OF run']
  have t: "successful + failed = length (locations self)" by simp
  from collect_loop_outcomes[OF run']
  have o: "successful = length (filter id (outcomes env self (locations self) st))"
    "failed = length (filter Not (outcomes env self (locations self) st))"
    by simp_all
  from collect_loop_visits[OF run'] obtain new where
    "trace st' = trace st @ new \<and> length (filter is_Sleep new) = length (locations self)
     \<and> filter (\<lambda>r. \<not> is_weather_request r) (requested new)
       = map (\<lambda>l. air_request self (loc_lat l) (loc_lon l)) (locations self)" ..
  then have n: "trace st' = trace st @ new"
    "length (filter is_Sleep new) = length (locations self)"
    "filter (\<lambda>r. \<not> is_weather_request r) (requested new)
       = map (\<lambda>l. air_request self (loc_lat l) (loc_lon l)) (locations self)"
    by simp_all
  have c: "collect_all_locations env self st = (Inr (successful, failed), st')"
    using run' by (simp add: collect_all_locations_def)
  show ?thesis
    by (intro exI conjI) (rule c, rule o(1), rule o(2), rule t, rule n(1), rule n(2), rule n(3))
qed

theorem collect_all_locations_completes_witness:
  "transport_errors_only (demo_env api_second_times_out (Inr True))
   \<and> sink_errors_only (demo_env api_second_times_out (Inr True))
   \<and> outcomes (demo_env api_second_times_out (Inr True)) demo_collector
        (locations demo_collector) demo_state = [True, False]
   \<and> fst (collect_all_locations (demo_env api_second_times_out (Inr True)) demo_collector
        demo_state) = Inr (1, 1)
   \<and> transport_errors_only (demo_env api_good (Inl (Exn Exception ''database is locked'')))
   \<and> sink_errors_only (demo_env api_good (Inl (Exn Exception ''database is locked'')))
   \<and> outcomes (demo_env api_good (Inl (Exn Exception ''database is locked''))) demo_collector
        (locations demo_collector) demo_state = [False, False]
   \<and> fst (collect_all_locations (demo_env api_good (Inl (Exn Exception ''database is locked'')))
        demo_collector demo_state) = Inr (0, 2)
   \<and> length (inserted (trace (snd (collect_all_locations
        (demo_env api_good (Inl (Exn Exception ''database is locked'')))
        demo_collector demo_state)))) = 2"
proof -
  let ?M = "demo_env api_second_times_out (Inr True)"
  let ?K = "demo_env api_good (Inl (Exn Exception ''database is locked''))"
  have a: "transport_errors_only ?M"
    by (simp add: transport_errors_only_def demo_env_def api_second_times_out_def api_good_def
        respond_def)
  have b: "sink_errors_only ?M"
    by (simp add: sink_errors_only_def demo_env_def)
  have c: "outcomes ?M demo_collector (locations demo_collector) demo_state = [True, False]"
    by (simp add: demo_defs2 run_defs ghost_defs)
  have a': "transport_errors_only ?K"
    by (simp add: transport_errors_only_def demo_env_def api_good_def respond_def)
  have b': "sink_errors_only ?K"
    by (simp add: sink_errors_only_def demo_env_def)
  have c': "outcomes ?K demo_collector (locations demo_collector) demo_state = [False, False]"
    by (simp add: demo_defs2 run_defs ghost_defs)
  from collect_all_locations_completes[OF a b, of demo_collector demo_state]
  have d: "fst (collect_all_locations ?M demo_collector demo_state)
      = Inr (length (filter id (outcomes ?M demo_collector (locations demo_collector) demo_state)),
             length (filter Not (outcomes ?M demo_collector (locations demo_collector) demo_state)))"
    by (elim exE conjE) simp
  from collect_all_locations_completes[OF a' b', of demo_collector demo_state]
  have d': "fst (collect_all_locations ?K demo_collector demo_state)
      = Inr (length (filter id (outcomes ?K demo_collector (locations demo_collector) demo_state)),
             length (filter Not (outcomes ?K demo_collector (locations demo_collector) demo_state)))"
    by (elim exE conjE) simp
  have e: "length (inserted (trace (snd (collect_all_locations ?K demo_collector demo_state)))) = 2"
    by (simp add: demo_defs2 run_defs)
  from a b c d a' b' c' d' e show ?thesis by simp
qed

text \<open>
  Outside these classes an exception ends the run. A weather body that is not JSON and
  whose decoding raises a \<^verbatim>\<open>ValueError\<close> is not caught by the two \<^verbatim>\<open>except\<close> clauses of
  \<^verbatim>\<open>get_air_quality_data\<close>: the run stops at the first of the two locations. A store
  that raises \<^verbatim>\<open>SystemExit\<close> is not caught by \<^verbatim>\<open>except Exception\<close>.
\<close>

theorem collect_all_locations_aborts:
  "collect_all_locations (demo_env api_weather_value_error (Inr True)) demo_collector demo_state
     = (Inl (Exn Exception ''Expecting value: line 1 column 1 (char 0)''),
        \<lparr>world = (), trace = [HttpGet (air_request demo_collector 1 2),
                                HttpGet (weather_request demo_collector 1 2)]\<rparr>)
   \<and> fst (collect_all_locations (demo_env api_good (Inl (Exn BaseException ''SystemExit'')))
        demo_collector demo_state)
     = Inl (Exn BaseException ''SystemExit'')
   \<and> length (locations demo_collector) = 2"
  by (simp add: demo_defs2 run_defs)

subsection \<open>A payload without \<^verbatim>\<open>pm2_5\<close>\<close>

text \<open>
  Claim C6, as amended. For a fetched pair of payloads in which the first entry of the
  pollution list holds the index \<^verbatim>\<open>main.aqi\<close> and a dict of components without
  \<^verbatim>\<open>pm2_5\<close>, and the weather payload holds temperature, humidity and pressure with
  \<^verbatim>\<open>wind\<close> absent or a dict, building the record succeeds: \<^verbatim>\<open>pm2_5\<close> is \<^verbatim>\<open>None\<close>,
  every other field carries the value of the payload, each of \<^verbatim>\<open>pm10\<close>, \<^verbatim>\<open>o3\<close>,
  \<^verbatim>\<open>no2\<close> and the wind speed being \<^verbatim>\<open>None\<close> when the payload lacks it; and
  \<^verbatim>\<open>process_and_save_data\<close> hands exactly this record, stamped with the reading of the
  clock, to the store and returns the store's answer.
\<close>

theorem pm2_5_optional:
  assumes "first_entry air = Inr entry"
    and "getitem entry ''components'' = Inr (JObj cs)"
    and "map_of cs ''pm2_5'' = None"
    and "getitem entry ''main'' = Inr m" and "getitem m ''aqi'' = Inr a"
    and "getitem wea ''main'' = Inr wm"
    and "getitem wm ''temp'' = Inr t"
    and "getitem wm ''humidity'' = Inr h"
    and "getitem wm ''pressure'' = Inr p"
    and "get_default wea ''wind'' (JObj []) = Inr (JObj ws)"
  shows "normalize_record location (fetched air wea) ts =
     Inr \<lparr>location_id = loc_id location, location_name = loc_name location,
          lat = loc_lat location, lon = loc_lon location, timestamp = ts,
          pm2_5 = JNull, pm10 = opt_value cs ''pm10'', o3 = opt_value cs ''o3'',
          no2 = opt_value cs ''no2'', aqi = a, temp = t, humidity = h, pressure = p,
          wind_speed = opt_value ws ''speed''\<rparr>
    \<and> process_and_save_data env location (fetched air wea) st =
       (let r = \<lparr>location_id = loc_id location, location_name = loc_name location,
                 lat = loc_lat location, lon = loc_lon location,
                 timestamp = fst (now env (world st)),
                 pm2_5 = JNull, pm10 = opt_value cs ''pm10'', o3 = opt_value cs ''o3'',
                 no2 = opt_value cs ''no2'', aqi = a, temp = t, humidity = h, pressure = p,
                 wind_speed = opt_value ws ''speed''\<rparr>;
            stored = insert_air_quality_data env (snd (now env (world st))) r
        in (case fst stored of Inl e \<Rightarrow> except_Exception e | Inr ok \<Rightarrow> Inr ok,
            \<lparr>world = snd stored, trace = trace st @ [Insert r]\<rparr>))"
proof -
  have pm: "opt_value cs ''pm2_5'' = JNull"
    using assms(3) by (simp add: opt_value_def)
  note v = normalize_record_value[OF assms(1,2,4-10), of location, unfolded pm]
  from process_and_save_data_Inr[OF v[of "fst (now env (world st))"]]
  have "process_and_save_data env location (fetched air wea) st =
       (let r = \<lparr>location_id = loc_id location, location_name = loc_name location,
                 lat = loc_lat location, lon = loc_lon location,
                 timestamp = fst (now env (world st)),
                 pm2_5 = JNull, pm10 = opt_value cs ''pm10'', o3 = opt_value cs ''o3'',
                 no2 = opt_value cs ''no2'', aqi = a, temp = t, humidity = h, pressure = p,
                 wind_speed = opt_value ws ''speed''\<rparr>;
            stored = insert_air_quality_data env (snd (now env (world st))) r
        in (case fst stored of Inl e \<Rightarrow> except_Exception e | Inr ok \<Rightarrow> Inr ok,
            \<lparr>world = snd stored, trace = trace st @ [Insert r]\<rparr>))"
    by (simp only: Let_def)
  with v[of ts] show ?thesis by (rule conjI)
qed

theorem pm2_5_optional_witness:
  "normalize_record \<lparr>loc_id = ''a'', loc_name = ''A'', loc_lat = 1, loc_lon = 2\<rparr>
      (fetched demo_air_no_pm2_5 demo_weather) ''t'' =
     Inr \<lparr>location_id = ''a'', location_name = ''A'', lat = 1, lon = 2, timestamp = ''t'',
          pm2_5 = JNull, pm10 = JNum 7, o3 = JNum 60, no2 = JNum 1, aqi = JNum 2,
          temp = JNum 30, humidity = JNum 70, pressure = JNum 1010, wind_speed = JNum 3\<rparr>
   \<and> process_and_save_data (demo_env api_good (Inr True))
        \<lparr>loc_id = ''a'', loc_name = ''A'', loc_lat = 1, loc_lon = 2\<rparr>
        (fetched demo_air_no_pm2_5 demo_weather) demo_state =
     (Inr True,
      \<lparr>world = (),
       trace = [Insert \<lparr>location_id = ''a'', location_name = ''A'', lat = 1, lon = 2,
          timestamp = ''2024-05-01T12:00:00+00:00'',
          pm2_5 = JNull, pm10 = JNum 7, o3 = JNum 60, no2 = JNum 1, aqi = JNum 2,
          temp = JNum 30, humidity = JNum 70, pressure = JNum 1010,
          wind_speed = JNum 3\<rparr>]\<rparr>)"
proof -
  let ?cs = "[(''pm10'', JNum 7), (''o3'', JNum 60), (''no2'', JNum 1)]"
  let ?m = "JObj [(''aqi'', JNum 2)]"
  let ?entry = "JObj [(''main'', ?m), (''components'', JObj ?cs)]"
  let ?wm = "JObj [(''temp'', JNum 30), (''humidity'', JNum 70), (''pressure'', JNum 1010)]"
  let ?ws = "[(''speed'', JNum 3)]"
  have 1: "first_entry demo_air_no_pm2_5 = Inr ?entry"
    by (simp add: first_entry_def demo_air_no_pm2_5_def bind_exn_def)
  have 2: "getitem ?entry ''components'' = Inr (JObj ?cs)" by simp
  have 3: "map_of ?cs ''pm2_5'' = None" by simp
  have 4: "getitem ?entry ''main'' = Inr ?m" by simp
  have 5: "getitem ?m ''aqi'' = Inr (JNum 2)" by simp
  have 6: "getitem demo_weather ''main'' = Inr ?wm" by (simp add: demo_weather_def)
  have 7: "getitem ?wm ''temp'' = Inr (JNum 30)" by simp
  have 8: "getitem ?wm ''humidity'' = Inr (JNum 70)" by simp
  have 9: "getitem ?wm ''pressure'' = Inr (JNum 1010)" by simp
  have 10: "get_default demo_weather ''wind'' (JObj []) = Inr (JObj ?ws)"
    by (simp add: demo_weather_def)
  from pm2_5_optional[OF 1 2 3 4 5 6 7 8 9 10,
      of "\<lparr>loc_id = ''a'', loc_name = ''A'', loc_lat = 1, loc_lon = 2\<rparr>" "''t''"
         "demo_env api_good (Inr True)" demo_state]
  show ?thesis by (simp add: opt_value_def demo_env_def demo_state_def Let_def)
qed

text \<open>
  The index present and \<^verbatim>\<open>pm2_5\<close> absent are not enough: with \<^verbatim>\<open>"wind": null\<close> in
  the weather payload, \<^verbatim>\<open>weather.get('wind', {})\<close> is \<^verbatim>\<open>None\<close>, the second \<^verbatim>\<open>.get\<close>
  raises \<^verbatim>\<open>AttributeError\<close>, no record is built and the method returns \<^verbatim>\<open>False\<close>.
\<close>

theorem pm2_5_absent_wind_null:
  "first_entry demo_air_no_pm2_5
     = Inr (JObj [(''main'', JObj [(''aqi'', JNum 2)]),
                  (''components'',
                     JObj [(''pm10'', JNum 7), (''o3'', JNum 60), (''no2'', JNum 1)])])
   \<and> has_index (JObj [(''main'', JObj [(''aqi'', JNum 2)]),
                  (''components'',
                     JObj [(''pm10'', JNum 7), (''o3'', JNum 60), (''no2'', JNum 1)])])
   \<and> map_of [(''pm10'', JNum 7), (''o3'', JNum 60), (''no2'', JNum 1)] ''pm2_5'' = None
   \<and> normalize_record \<lparr>loc_id = ''a'', loc_name = ''A'', loc_lat = 1, loc_lon = 2\<rparr>
        (fetched demo_air_no_pm2_5 demo_weather_wind_null) ''t''
     = Inl (Exn AttributeError ''object has no attribute get'')
   \<and> process_and_save_data (demo_env api_good (Inr True))
        \<lparr>loc_id = ''a'', loc_name = ''A'', loc_lat = 1, loc_lon = 2\<rparr>
        (fetched demo_air_no_pm2_5 demo_weather_wind_null) demo_state
     = (Inr False, demo_state)"
  by (simp add: first_entry_def has_index_def normalize_record_def demo_weather_wind_null_def
      demo_defs run_defs)

subsection \<open>Collecting one location, in full\<close>



subsection \<open>Records handed to the store, in full\<close>

text \<open>
  Claim C8, as amended. In every run at most one record per location is handed to the
  store: the ids of the stored records are, in order, those of a sub-list of the
  registry. In a run that returns, the records handed to the store are exactly the
  records built for the locations whose fetch succeeded and whose payloads give a
  record, one each, in the order of the registry. The fetch itself stores nothing. For
  a location whose fetch failed no record is built and the loop goes on to the pause and
  the next location with the location counted as failed; for a location whose fetch
  succeeded and whose payloads give a record, exactly that record is handed to the
  store and the loop counts the location by the store's answer.
\<close>

theorem collect_all_locations_attempts:
  fixes env :: "'w env"
  shows "(\<forall>res st'. collect_all_locations env self st = (res, st') \<longrightarrow>
      (\<exists>new. trace st' = trace st @ new
         \<and> subseq (map location_id (inserted new)) (map loc_id (locations self))
         \<and> length (inserted new) \<le> length (locations self)))
   \<and> (\<forall>t st'. collect_all_locations env self st = (Inr t, st') \<longrightarrow>
        inserted (trace st') = inserted (trace st) @ attempts env self (locations self) st)
   \<and> (\<forall>d st1. get_air_quality_data env self (loc_lat location) (loc_lon location) st
                   = (Inr d, st1) \<longrightarrow>
        inserted (trace st1) = inserted (trace st)
        \<and> (\<not> success d \<longrightarrow>
             attempted_record env self location st = None
             \<and> collect_loop env self (location # rest) (successful, failed) st
               = collect_loop env self rest (successful, failed + 1) (do_sleep env 2 st1))
        \<and> (\<forall>r. success d
               \<and> normalize_record location d (fst (now env (world st1))) = Inr r \<longrightarrow>
             attempted_record env self location st = Some r
             \<and> trace (snd (process_and_save_data env location d st1)) = trace st1 @ [Insert r]
             \<and> (\<forall>ok. fst (process_and_save_data env location d st1) = Inr ok \<longrightarrow>
                  collect_loop env self (location # rest) (successful, failed) st
                    = collect_loop env self rest
                        (if ok then (successful + 1, failed) else (successful, failed + 1))
                        (do_sleep env 2 (snd (process_and_save_data env location d st1))))))"
proof (intro conjI allI impI)
  fix res st'
  assume "collect_all_locations env self st = (res, st')"
  then have "collect_loop env self (locations self) (0, 0) st = (res, st')"
    by (simp add: collect_all_locations_def)
  from collect_loop_inserted[OF this] obtain new where
    "trace st' = trace st @ new
       \<and> subseq (map location_id (inserted new)) (map loc_id (locations self))" ..
  then have n: "trace st' = trace st @ new"
      "subseq (map location_id (inserted new)) (map loc_id (locations self))"
    by simp_all
  from list_emb_length[OF n(2)]
  have "length (inserted new) \<le> length (locations self)" by simp
  with n show "\<exists>new. trace st' = trace st @ new
         \<and> subseq (map location_id (inserted new)) (map loc_id (locations self))
         \<and> length (inserted new) \<le> length (locations self)"
    by (intro exI conjI)
next
  fix t st'
  assume "collect_all_locations env self st = (Inr t, st')"
  then have "collect_loop env self (locations self) (0, 0) st = (Inr t, st')"
    by (simp add: collect_all_locations_def)
  then show "inserted (trace st') = inserted (trace st) @ attempts env self (locations self) st"
    by (rule collect_loop_attempts)
next
  fix d st1
  assume g: "get_air_quality_data env self (loc_lat location) (loc_lon location) st = (Inr d, st1)"
  from get_air_quality_data_trace[OF g]
  show "inserted (trace st1) = inserted (trace st)"
    by (rule disjE) (simp_all add: inserted_append)
next
  fix d st1
  assume g: "get_air_quality_data env self (loc_lat location) (loc_lon location) st = (Inr d, st1)"
    and "\<not> success d"
  then show "attempted_record env self location st = None"
    by (simp add: attempted_record_def)
next
  fix d st1
  assume g: "get_air_quality_data env self (loc_lat location) (loc_lon location) st = (Inr d, st1)"
    and "\<not> success d"
  then show "collect_loop env self (location # rest) (successful, failed) st
               = collect_loop env self rest (successful, failed + 1) (do_sleep env 2 st1)"
    by (simp add: collect_loop.simps(2))
next
  fix d r and st1 :: "'w state"
  assume g: "get_air_quality_data env self (loc_lat location) (loc_lon location) st = (Inr d, st1)"
    and "success d \<and> normalize_record location d (fst (now env (world st1))) = Inr r"
  then show "attempted_record env self location st = Some r"
    by (simp add: attempted_record_def)
next
  fix d r and st1 :: "'w state"
  assume "success d \<and> normalize_record location d (fst (now env (world st1))) = Inr r"
  then have "normalize_record location d (fst (now env (world st1))) = Inr r" ..
  then show "trace (snd (process_and_save_data env location d st1)) = trace st1 @ [Insert r]"
    by (rule process_and_save_data_Insert)
next
  fix d r ok and st1 :: "'w state"
  assume g: "get_air_quality_data env self (loc_lat location) (loc_lon location) st = (Inr d, st1)"
    and s: "success d \<and> normalize_record location d (fst (now env (world st1))) = Inr r"
    and p: "fst (process_and_save_data env location d st1) = Inr ok"
  obtain st2 where "process_and_save_data env location d st1 = (Inr ok, st2)"
    using p by (cases "process_and_save_data env location d st1") simp
  with g s show "collect_loop env self (location # rest) (successful, failed) st
                    = collect_loop env self rest
                        (if ok then (successful + 1, failed) else (successful, failed + 1))
                        (do_sleep env 2 (snd (process_and_save_data env location d st1)))"
    by (simp add: collect_loop.simps(2))
qed

theorem collect_all_locations_attempts_witness:
  "get_air_quality_data (demo_env api_good (Inr True)) demo_collector 1 2 demo_state
     = (Inr (fetched demo_air demo_weather),
        \<lparr>world = (), trace = [HttpGet (air_request demo_collector 1 2),
                                HttpGet (weather_request demo_collector 1 2)]\<rparr>)
   \<and> success (fetched demo_air demo_weather)
   \<and> normalize_record \<lparr>loc_id = ''a'', loc_name = ''A'', loc_lat = 1, loc_lon = 2\<rparr>
        (fetched demo_air demo_weather) ''2024-05-01T12:00:00+00:00''
     = Inr \<lparr>location_id = ''a'', location_name = ''A'', lat = 1, lon = 2,
            timestamp = ''2024-05-01T12:00:00+00:00'',
            pm2_5 = JNum 5, pm10 = JNum 7, o3 = JNum 60, no2 = JNum 1, aqi = JNum 2,
            temp = JNum 30, humidity = JNum 70, pressure = JNum 1010, wind_speed = JNum 3\<rparr>
   \<and> process_and_save_data (demo_env api_good (Inr True))
          \<lparr>loc_id = ''a'', loc_name = ''A'', loc_lat = 1, loc_lon = 2\<rparr>
          (fetched demo_air demo_weather)
          \<lparr>world = (), trace = [HttpGet (air_request demo_collector 1 2),
                                  HttpGet (weather_request demo_collector 1 2)]\<rparr>
     = (Inr True,
        \<lparr>world = (),
         trace = [HttpGet (air_request demo_collector 1 2),
                  HttpGet (weather_request demo_collector 1 2),
                  Insert \<lparr>location_id = ''a'', location_name = ''A'', lat = 1, lon = 2,
                    timestamp = ''2024-05-01T12:00:00+00:00'',
                    pm2_5 = JNum 5, pm10 = JNum 7, o3 = JNum 60, no2 = JNum 1, aqi = JNum 2,
                    temp = JNum 30, humidity = JNum 70, pressure = JNum 1010,
                    wind_speed = JNum 3\<rparr>]\<rparr>)
   \<and> collect_loop (demo_env api_good (Inr True)) demo_collector
        [\<lparr>loc_id = ''a'', loc_name = ''A'', loc_lat = 1, loc_lon = 2\<rparr>] (0, 0) demo_state
     = (Inr (1, 0),
        \<lparr>world = (),
         trace = [HttpGet (air_request demo_collector 1 2),
                  HttpGet (weather_request demo_collector 1 2),
                  Insert \<lparr>location_id = ''a'', location_name = ''A'', lat = 1, lon = 2,
                    timestamp = ''2024-05-01T12:00:00+00:00'',
                    pm2_5 = JNum 5, pm10 = JNum 7, o3 = JNum 60, no2 = JNum 1, aqi = JNum 2,
                    temp = JNum 30, humidity = JNum 70, pressure = JNum 1010,
                    wind_speed = JNum 3\<rparr>, Sleep 2]\<rparr>)
   \<and> fst (collect_all_locations (demo_env api_second_times_out (Inr True)) demo_collector
        demo_state) = Inr (1, 1)
   \<and> attempts (demo_env api_second_times_out (Inr True)) demo_collector
        (locations demo_collector) demo_state
     = [\<lparr>location_id = ''a'', location_name = ''A'', lat = 1, lon = 2,
         timestamp = ''2024-05-01T12:00:00+00:00'',
         pm2_5 = JNum 5, pm10 = JNum 7, o3 = JNum 60, no2 = JNum 1, aqi = JNum 2,
         temp = JNum 30, humidity = JNum 70, pressure = JNum 1010, wind_speed = JNum 3\<rparr>]
   \<and> inserted (trace (snd (collect_all_locations (demo_env api_second_times_out (Inr True))
        demo_collector demo_state)))
     = [\<lparr>location_id = ''a'', location_name = ''A'', lat = 1, lon = 2,
         timestamp = ''2024-05-01T12:00:00+00:00'',
         pm2_5 = JNum 5, pm10 = JNum 7, o3 = JNum 60, no2 = JNum 1, aqi = JNum 2,
         temp = JNum 30, humidity = JNum 70, pressure = JNum 1010, wind_speed = JNum 3\<rparr>]
   \<and> get_air_quality_data (demo_env api_weather_503 (Inr True)) demo_collector 1 2 demo_state
     = (Inr (failed_fetch ''API request failed''),
        \<lparr>world = (), trace = [HttpGet (air_request demo_collector 1 2),
                                HttpGet (weather_request demo_collector 1 2)]\<rparr>)
   \<and> \<not> success (failed_fetch ''API request failed'')
   \<and> collect_loop (demo_env api_weather_503 (Inr True)) demo_collector
        [\<lparr>loc_id = ''a'', loc_name = ''A'', loc_lat = 1, loc_lon = 2\<rparr>] (0, 0) demo_state
     = (Inr (0, 1),
        \<lparr>world = (), trace = [HttpGet (air_request demo_collector 1 2),
                                HttpGet (weather_request demo_collector 1 2), Sleep 2]\<rparr>)"
proof -
  let ?E = "demo_env api_good (Inr True)"
  let ?F = "demo_env api_weather_503 (Inr True)"
  let ?M = "demo_env api_second_times_out (Inr True)"
  let ?L = "\<lparr>loc_id = ''a'', loc_name = ''A'', loc_lat = 1, loc_lon = 2\<rparr>"
  let ?D = "fetched demo_air demo_weather"
  let ?S = "\<lparr>world = (), trace = [HttpGet (air_request demo_collector 1 2),
                                    HttpGet (weather_request demo_collector 1 2)]\<rparr>"
  let ?R = "\<lparr>location_id = ''a'', location_name = ''A'', lat = 1, lon = 2,
            timestamp = ''2024-05-01T12:00:00+00:00'',
            pm2_5 = JNum 5, pm10 = JNum 7, o3 = JNum 60, no2 = JNum 1, aqi = JNum 2,
            temp = JNum 30, humidity = JNum 70, pressure = JNum 1010, wind_speed = JNum 3\<rparr>"
  let ?S2 = "\<lparr>world = (), trace = [HttpGet (air_request demo_collector 1 2),
                 HttpGet (weather_request demo_collector 1 2), Insert ?R]\<rparr>"
  let ?S3 = "\<lparr>world = (), trace = [HttpGet (air_request demo_collector 1 2),
                 HttpGet (weather_request demo_collector 1 2), Insert ?R, Sleep 2]\<rparr>"
  have a: "get_air_quality_data ?E demo_collector (loc_lat ?L) (loc_lon ?L) demo_state
      = (Inr ?D, ?S)"
    by (simp add: demo_defs2 run_defs)
  have b: "success ?D" by (simp add: fetched_def)
  have c: "normalize_record ?L ?D (fst (now ?E (world ?S))) = Inr ?R"
    by (simp add: normalize_record_def demo_defs2 run_defs)
  have d: "fst (now ?E (world ?S)) = ''2024-05-01T12:00:00+00:00''"
    by (simp add: demo_env_def)
  have p: "process_and_save_data ?E ?L ?D ?S = (Inr True, ?S2)"
    by (simp add: demo_defs2 run_defs)
  have q: "collect_loop ?E demo_collector [] (if True then (0 + 1, 0) else (0, 0 + 1))
      (do_sleep ?E 2 ?S2) = (Inr (1, 0), ?S3)"
    by (simp add: do_sleep_def demo_env_def)
  note good = collect_all_locations_attempts[where env = ?E and self = demo_collector
      and st = demo_state and location = ?L and rest = "[]" and successful = 0 and failed = 0]
  have p': "fst (process_and_save_data ?E ?L ?D ?S) = Inr True"
    using p by simp
  from good
  have "get_air_quality_data ?E demo_collector (loc_lat ?L) (loc_lon ?L) demo_state
          = (Inr ?D, ?S) \<longrightarrow>
        (success ?D \<and> normalize_record ?L ?D (fst (now ?E (world ?S))) = Inr ?R \<longrightarrow>
          (fst (process_and_save_data ?E ?L ?D ?S) = Inr True \<longrightarrow>
             collect_loop ?E demo_collector [?L] (0, 0) demo_state
               = collect_loop ?E demo_collector [] (if True then (0 + 1, 0) else (0, 0 + 1))
                   (do_sleep ?E 2 (snd (process_and_save_data ?E ?L ?D ?S)))))"
    by (elim conjE allE[of _ ?D] allE[of _ ?S] allE[of _ ?R] allE[of _ True]) (intro impI, fast)
  with a b c p'
  have "collect_loop ?E demo_collector [?L] (0, 0) demo_state
      = collect_loop ?E demo_collector [] (if True then (0 + 1, 0) else (0, 0 + 1))
          (do_sleep ?E 2 (snd (process_and_save_data ?E ?L ?D ?S)))"
    by fast
  with p q have e: "collect_loop ?E demo_collector [?L] (0, 0) demo_state = (Inr (1, 0), ?S3)"
    by simp
  have m1: "fst (collect_all_locations ?M demo_collector demo_state) = Inr (1, 1)"
    by (simp add: demo_defs2 run_defs)
  have m2: "attempts ?M demo_collector (locations demo_collector) demo_state = [?R]"
    by (simp add: demo_defs2 run_defs ghost_defs)
  obtain st' where m3: "collect_all_locations ?M demo_collector demo_state = (Inr (1, 1), st')"
    using m1 by (cases "collect_all_locations ?M demo_collector demo_state") simp
  from collect_all_locations_attempts[where env = ?M and self = demo_collector
      and st = demo_state and location = ?L and rest = "[]" and successful = 0 and failed = 0]
  have "\<forall>t st'. collect_all_locations ?M demo_collector demo_state = (Inr t, st') \<longrightarrow>
        inserted (trace st') = inserted (trace demo_state)
          @ attempts ?M demo_collector (locations demo_collector) demo_state"
    by (elim conjE)
  with m3 have "inserted (trace st') = inserted (trace demo_state)
      @ attempts ?M demo_collector (locations demo_collector) demo_state"
    by fast
  with m2 m3 have m4: "inserted (trace (snd (collect_all_locations ?M demo_collector demo_state)))
      = [?R]"
    by (simp add: demo_state_def)
  have h: "get_air_quality_data ?F demo_collector (loc_lat ?L) (loc_lon ?L) demo_state
      = (Inr (failed_fetch ''API request failed''), ?S)"
    by (simp add: demo_defs2 run_defs)
  have i: "\<not> success (failed_fetch ''API request failed'')"
    by (simp add: failed_fetch_def)
  have j: "collect_loop ?F demo_collector [] (0, 0 + 1) (do_sleep ?F 2 ?S)
      = (Inr (0, 1),
          \<lparr>world = (), trace = [HttpGet (air_request demo_collector 1 2),
                                  HttpGet (weather_request demo_collector 1 2), Sleep 2]\<rparr>)"
    by (simp add: do_sleep_def demo_env_def)
  from collect_all_locations_attempts[where env = ?F and self = demo_collector
      and st = demo_state and location = ?L and rest = "[]" and successful = 0 and failed = 0]
  have "get_air_quality_data ?F demo_collector (loc_lat ?L) (loc_lon ?L) demo_state
          = (Inr (failed_fetch ''API request failed''), ?S) \<longrightarrow>
        (\<not> success (failed_fetch ''API request failed'') \<longrightarrow>
           collect_loop ?F demo_collector [?L] (0, 0) demo_state
             = collect_loop ?F demo_collector [] (0, 0 + 1) (do_sleep ?F 2 ?S))"
    by (elim conjE allE[of _ "failed_fetch ''API request failed''"] allE[of _ ?S])
      (intro impI, fast)
  with h i
  have "collect_loop ?F demo_collector [?L] (0, 0) demo_state
      = collect_loop ?F demo_collector [] (0, 0 + 1) (do_sleep ?F 2 ?S)"
    by fast
  with j have k: "collect_loop ?F demo_collector [?L] (0, 0) demo_state
      = (Inr (0, 1),
          \<lparr>world = (), trace = [HttpGet (air_request demo_collector 1 2),
                                  HttpGet (weather_request demo_collector 1 2), Sleep 2]\<rparr>)"
    by simp
  from a b c d p e m1 m2 m4 h i k show ?thesis by simp
qed

end
